theory Spec2Isabelle
  imports Main "HOL-Library.Sublist"
begin

section \<open>Byte buffers and text\<close>

text \<open>
  A Node \<open>Buffer\<close> is a sequence of bytes. Isabelle's \<open>char\<close> is an 8-bit value, so a
  buffer is a list of \<open>char\<close>; \<open>buf.length\<close> is \<open>length\<close>. JavaScript strings that
  hold mime types, identifiers and other protocol text are Isabelle strings.
\<close>

type_synonym buffer = "char list"

text \<open>\<open>buf.subarray(0, n)\<close> for \<open>0 \<le> n \<le> buf.length\<close>.\<close>

definition subarray0 :: "buffer \<Rightarrow> nat \<Rightarrow> buffer" where
  "subarray0 buf n = take n buf"

text \<open>
  \<open>buf.toString("latin1")\<close>: every byte becomes the character with the same code, so the
  decoded text has the same code units as the buffer has bytes.
\<close>

definition toString_latin1 :: "buffer \<Rightarrow> string" where
  "toString_latin1 buf = map (\<lambda>b. char_of (of_char b :: nat)) buf"

section \<open>utils/pdfHeuristics.ts\<close>

text \<open>
  The pattern \<open>/\/Font|\/ToUnicode|BT[\s\S]+?ET/\<close>, anchored at the head of the text:
  one of the two literals, or \<open>BT\<close>, at least one arbitrary character (\<open>[\s\S]\<close> matches
  every character, line breaks included), and a later \<open>ET\<close>. The lazy quantifier only
  changes which match is found, not whether there is one.
\<close>

fun marker_at_head :: "string \<Rightarrow> bool" where
  "marker_at_head s =
     (prefix ''/Font'' s \<or> prefix ''/ToUnicode'' s \<or>
      (case s of
         a # b # c # rest \<Rightarrow> a = CHR ''B'' \<and> b = CHR ''T'' \<and> sublist ''ET'' rest
       | _ \<Rightarrow> False))"

text \<open>\<open>RegExp.prototype.test\<close> without the sticky flag tries every start position.\<close>

fun marker_test :: "string \<Rightarrow> bool" where
  "marker_test [] = marker_at_head []"
| "marker_test (c # cs) = (marker_at_head (c # cs) \<or> marker_test cs)"

definition pdfLikelyHasTextLayer :: "buffer \<Rightarrow> bool" where
  "pdfLikelyHasTextLayer buf =
     (let head = subarray0 buf (min (length buf) (2 * 1024 * 1024));
          s = toString_latin1 head
      in marker_test s)"

section \<open>modules/submissions/service.ts: the classifier\<close>

datatype extraction_status = parsed | pending_ocr

record extraction =
  ocrRequired :: bool
  extractionStatus :: extraction_status
  extractedText :: "string option"

definition pickExt :: "string \<Rightarrow> string" where
  "pickExt mime =
     (if mime = ''application/pdf'' then ''.pdf''
      else if mime = ''image/jpeg'' then ''.jpg''
      else if mime = ''image/png'' then ''.png''
      else if mime = ''text/plain'' then ''.txt''
      else if mime = ''application/vnd.openxmlformats-officedocument.wordprocessingml.document''
        then ''.docx''
      else '''')"

definition decideExtraction :: "string \<Rightarrow> buffer \<Rightarrow> extraction" where
  "decideExtraction mime buf =
     (if mime = ''image/jpeg'' \<or> mime = ''image/png'' then
        \<lparr>ocrRequired = True, extractionStatus = pending_ocr, extractedText = None\<rparr>
      else if mime = ''application/pdf'' then
        (let hasText = pdfLikelyHasTextLayer buf
         in if hasText
            then \<lparr>ocrRequired = False, extractionStatus = parsed,
                  extractedText = Some ''[stub] Extracted text from PDF''\<rparr>
            else \<lparr>ocrRequired = True, extractionStatus = pending_ocr, extractedText = None\<rparr>)
      else if mime = ''application/vnd.openxmlformats-officedocument.wordprocessingml.document''
              \<or> mime = ''text/plain'' then
        \<lparr>ocrRequired = False, extractionStatus = parsed,
         extractedText = Some ''[stub] Extracted text from document''\<rparr>
      else
        \<lparr>ocrRequired = True, extractionStatus = pending_ocr, extractedText = None\<rparr>)"


section \<open>Failures\<close>

text \<open>
  Every exception the service can raise is a value: the service's own error object
  (\<open>Object.assign(new Error(message), {http, code})\<close>), a database error with its SQLSTATE
  code and message, and an exception of the storage provider. The database errors that
  occur are those the tables decide (a violated constraint, a refused parameter); a lost
  connection is outside the model.
\<close>

datatype failure =
    HttpError nat string string
  | PgError string string
  | StorageError string

section \<open>The database tables (db/migrations)\<close>

datatype json = JNull | JBool bool | JNum int | JStr string
  | JArr "json list" | JObj "(string \<times> json) list"

datatype submission_status = received | error | deleted

text \<open>
  A row of \<open>app.submissions\<close> (migration 001). Three columns share their name with
  another constant of this theory and carry the suffix \<open>_col\<close>.
\<close>

record submission_row =
  submission_id :: string
  assignment_id :: string
  student_id :: string
  mime_col :: string
  size_col :: int
  sha256_col :: "string option"
  storage_path :: string
  status_col :: submission_status
  extraction_status :: extraction_status
  ocr_required :: bool
  extracted_text :: "string option"
  created_at :: nat
  updated_at :: nat
  correlation_id :: "string option"

text \<open>
  A row of \<open>app.submission_events\<close>, with the columns the service writes; \<open>event_id\<close> and
  \<open>created_at\<close> are assigned by the database in insertion order, which is the order of the
  list that models the table.
\<close>

record event_row =
  submission_id_ev :: string
  event_type :: string
  payload :: json
  correlation_id_ev :: "string option"

datatype log_line =
    idempotent_hit "string option" string
  | idempotent_race_winner "string option" string
  | cache_invalidate nat "string option"
  | post_submissions_error failure

text \<open>
  Everything the service reads or writes: the two tables, the artifact store (logical
  path and bytes), the table \<open>app.cache\<close> (key and payload) and the console.
\<close>

record world =
  submissions :: "submission_row list"
  submission_events :: "event_row list"
  artifacts :: "(string \<times> buffer) list"
  cache :: "(string \<times> json) list"
  console :: "log_line list"

text \<open>
  The idempotency query: the rows with the triple, \<open>ORDER BY created_at ASC LIMIT 1\<close>,
  then \<open>rows[0]\<close>. A NULL \<open>sha256\<close> equals no parameter.
\<close>

definition select_by_triple ::
  "submission_row list \<Rightarrow> string \<Rightarrow> string \<Rightarrow> string \<Rightarrow> submission_row option" where
  "select_by_triple tbl a s h =
     (case sort_key created_at
             (filter (\<lambda>r. assignment_id r = a \<and> student_id r = s \<and> sha256_col r = Some h) tbl)
      of [] \<Rightarrow> None | r # _ \<Rightarrow> Some r)"

text \<open>
  \<open>INSERT INTO app.submissions\<close>: the CHECK on \<open>size\<close> (migration 001), the primary key
  \<open>submission_id\<close> (migration 001) and the unique index on
  \<open>(assignment_id, student_id, sha256)\<close> (migration 003), which never reports a conflict
  for a NULL hash. Both uniqueness conflicts have SQLSTATE 23505.
\<close>

definition insert_submission ::
  "submission_row \<Rightarrow> submission_row list \<Rightarrow> failure + submission_row list" where
  "insert_submission r tbl =
     (if \<not> (size_col r > 0 \<and> size_col r \<le> 10485760) then
        Inl (PgError ''23514'' ''violates check constraint submissions_size_check'')
      else if \<exists>x \<in> set tbl. submission_id x = submission_id r then
        Inl (PgError ''23505'' ''duplicate key value violates unique constraint submissions_pkey'')
      else if sha256_col r \<noteq> None \<and>
              (\<exists>x \<in> set tbl. assignment_id x = assignment_id r \<and> student_id x = student_id r
                             \<and> sha256_col x = sha256_col r) then
        Inl (PgError ''23505''
               ''duplicate key value violates unique constraint submissions_unique_triplet'')
      else Inr (tbl @ [r]))"

text \<open>The CHECK on \<open>event_type\<close> that migration 005 installs.\<close>

definition event_type_check :: "string \<Rightarrow> bool" where
  "event_type_check t \<longleftrightarrow>
     t \<in> {''submission.created'', ''submission.updated'', ''submission.parsed'',
          ''submission.ocr_pending'', ''submission.received''}"

text \<open>
  \<open>INSERT INTO app.submission_events\<close>: the CHECK and the foreign key to
  \<open>app.submissions\<close>.
\<close>

definition insert_event :: "event_row \<Rightarrow> world \<Rightarrow> failure + world" where
  "insert_event e w =
     (if \<not> event_type_check (event_type e) then
        Inl (PgError ''23514'' ''violates check constraint submission_events_event_type_check'')
      else if \<not> (\<exists>x \<in> set (submissions w). submission_id x = submission_id_ev e) then
        Inl (PgError ''23503'' ''violates foreign key constraint'')
      else Inr (w\<lparr>submission_events := submission_events w @ [e]\<rparr>))"

section \<open>core/cache/db.ts\<close>

text \<open>
  SQL \<open>LIKE\<close>: \<open>%\<close> matches any run of characters, \<open>_\<close> one character, a backslash
  quotes the next pattern character.
\<close>

fun like :: "string \<Rightarrow> string \<Rightarrow> bool" where
  "like [] s = (s = [])"
| "like (p # ps) s =
     (if p = CHR ''%'' then
        (like ps s \<or> (case s of [] \<Rightarrow> False | _ # t \<Rightarrow> like (p # ps) t))
      else if p = CHR ''_'' then
        (case s of [] \<Rightarrow> False | _ # t \<Rightarrow> like ps t)
      else if p = CHR 0x5C then
        (case ps of
           [] \<Rightarrow> False
         | q # qs \<Rightarrow> (case s of [] \<Rightarrow> False | c # t \<Rightarrow> c = q \<and> like qs t))
      else (case s of [] \<Rightarrow> False | c # t \<Rightarrow> c = p \<and> like ps t))"

text \<open>\<open>DELETE FROM app.cache WHERE key LIKE $1\<close> with \<open>prefix + "%"\<close>; returns the row count.\<close>

definition cacheDelByPrefix ::
  "string \<Rightarrow> (string \<times> json) list \<Rightarrow> nat \<times> (string \<times> json) list" where
  "cacheDelByPrefix pfx c =
     (length (filter (\<lambda>kv. like (pfx @ ''%'') (fst kv)) c),
      filter (\<lambda>kv. \<not> like (pfx @ ''%'') (fst kv)) c)"

section \<open>types/storage.ts\<close>

record SavedObject =
  storagePath :: string
  absolutePath :: string
  sha256_saved :: string
  size_saved :: int

section \<open>modules/submissions/service.ts: createSubmission\<close>

record create_opts =
  assignmentId :: string
  studentId :: string
  grade :: "string option"
  buf :: buffer
  mime :: string
  originalName :: "string option"
  correlationId :: "string option"
  dataMode :: "string option"

record create_result =
  submissionId :: string
  status :: submission_status
  extractionStatus_res :: extraction_status
  ocrRequired_res :: bool

text \<open>
  What a call takes from outside the service: the hash function of the \<open>crypto\<close> module,
  the clock and the random source behind the generated id, the database clock, the injected
  storage provider (\<open>saveOriginal\<close> receives \<open>buf\<close>, \<open>grade\<close>, \<open>assignmentId\<close>,
  \<open>submissionId\<close> and \<open>ext\<close>; it returns the saved object or throws an error with a
  message, and leaves the artifact store as it made it), and the rows that concurrent
  requests commit while this call is suspended between its idempotency query and its
  insert.
\<close>

record env =
  sha256 :: "buffer \<Rightarrow> string"
  date_now :: nat
  random_suffix :: string
  db_now :: nat
  saveOriginal ::
    "buffer \<Rightarrow> string option \<Rightarrow> string \<Rightarrow> string \<Rightarrow> string \<Rightarrow> (string \<times> buffer) list
       \<Rightarrow> (string + SavedObject) \<times> (string \<times> buffer) list"
  concurrent :: "submission_row list"

text \<open>
  \<open>Number.prototype.toString(radix)\<close> of a non-negative integer, for a radix from 2 to 36
  (any other radix is a RangeError; the code uses 16 and 10).
\<close>

definition digit_char :: "nat \<Rightarrow> char" where
  "digit_char d = ''0123456789abcdefghijklmnopqrstuvwxyz'' ! d"

fun toString_radix :: "nat \<Rightarrow> nat \<Rightarrow> string" where
  "toString_radix r n =
     (if r < 2 \<or> n < r then [digit_char n]
      else toString_radix r (n div r) @ [digit_char (n mod r)])"

declare toString_radix.simps [simp del]

text \<open>\<open>`sub_${Date.now().toString(16)}_${Math.random().toString(36).slice(2, 8)}`\<close>\<close>

definition new_submission_id :: "env \<Rightarrow> string" where
  "new_submission_id e = ''sub_'' @ toString_radix 16 (date_now e) @ ''_'' @ random_suffix e"

text \<open>The parameter lists of the three \<open>INSERT INTO app.submission_events\<close>.\<close>

definition created_event :: "create_opts \<Rightarrow> string \<Rightarrow> SavedObject \<Rightarrow> event_row" where
  "created_event opts sid saved =
     \<lparr>submission_id_ev = sid, event_type = ''submission.created'',
      payload = JObj [(''fileName'', JStr (case originalName opts of
                                             None \<Rightarrow> ''editor.txt'' | Some n \<Rightarrow> n)),
                      (''size'', JNum (size_saved saved)),
                      (''dataMode'', JStr (case dataMode opts of
                                             None \<Rightarrow> ''sandbox'' | Some dm \<Rightarrow> dm))],
      correlation_id_ev = correlationId opts\<rparr>"

definition parsed_event :: "create_opts \<Rightarrow> string \<Rightarrow> event_row" where
  "parsed_event opts sid =
     \<lparr>submission_id_ev = sid, event_type = ''submission.parsed'',
      payload = JObj [(''stub'', JBool True)],
      correlation_id_ev = correlationId opts\<rparr>"

definition ocr_pending_event :: "create_opts \<Rightarrow> string \<Rightarrow> event_row" where
  "ocr_pending_event opts sid =
     \<lparr>submission_id_ev = sid, event_type = ''submission.ocr_pending'',
      payload = JObj [(''reason'', JStr ''image_or_scanned_pdf'')],
      correlation_id_ev = correlationId opts\<rparr>"

text \<open>
  The tail of \<open>createSubmission\<close> after a successful insert: the \<open>created\<close>
  event, the cache invalidation with its log line, and the follow-up event.
\<close>

definition emit_events ::
  "create_opts \<Rightarrow> string \<Rightarrow> SavedObject \<Rightarrow> extraction \<Rightarrow> world
     \<Rightarrow> (failure + create_result) \<times> world" where
  "emit_events opts sid saved d w =
     (case insert_event (created_event opts sid saved) w of
        Inl err \<Rightarrow> (Inl err, w)
      | Inr w1 \<Rightarrow>
          (let (removed, c) = cacheDelByPrefix ''courses:v1:'' (cache w1);
               w2 = w1\<lparr>cache := c,
                       console := console w1 @ [cache_invalidate removed (correlationId opts)]\<rparr>;
               res = \<lparr>submissionId = sid, status = received,
                      extractionStatus_res = extractionStatus d,
                      ocrRequired_res = ocrRequired d\<rparr>
           in if extractionStatus d = parsed then
                (case insert_event (parsed_event opts sid) w2 of
                   Inl err \<Rightarrow> (Inl err, w2)
                 | Inr w3 \<Rightarrow> (Inr res, w3))
              else if ocrRequired d then
                (case insert_event (ocr_pending_event opts sid) w2 of
                   Inl err \<Rightarrow> (Inl err, w2)
                 | Inr w3 \<Rightarrow> (Inr res, w3))
              else (Inr res, w2)))"

text \<open>The parameter list of \<open>INSERT INTO app.submissions\<close>, with the column defaults.\<close>

definition new_row ::
  "env \<Rightarrow> create_opts \<Rightarrow> string \<Rightarrow> string \<Rightarrow> SavedObject \<Rightarrow> extraction \<Rightarrow> submission_row" where
  "new_row e opts contentSha sid saved d =
     \<lparr>submission_id = sid, assignment_id = assignmentId opts,
      student_id = studentId opts, mime_col = mime opts,
      size_col = size_saved saved, sha256_col = Some contentSha,
      storage_path = storagePath saved, status_col = received,
      extraction_status = extractionStatus d, ocr_required = ocrRequired d,
      extracted_text = extractedText d, created_at = db_now e,
      updated_at = db_now e, correlation_id = correlationId opts\<rparr>"

text \<open>
  The insert of the main row inside its \<open>try\<close>, with the \<open>catch\<close> that re-queries on
  SQLSTATE 23505 and rethrows when the re-query finds nothing or the error is another one.
  The table the insert meets is the table of the idempotency query followed by the rows
  committed concurrently since.
\<close>

definition insert_main_row ::
  "env \<Rightarrow> create_opts \<Rightarrow> string \<Rightarrow> string \<Rightarrow> SavedObject \<Rightarrow> extraction \<Rightarrow> world
     \<Rightarrow> (failure + create_result) \<times> world" where
  "insert_main_row e opts contentSha sid saved d w =
     (let w1 = w\<lparr>submissions := submissions w @ concurrent e\<rparr>
      in case insert_submission (new_row e opts contentSha sid saved d) (submissions w1) of
           Inl err \<Rightarrow>
             (case err of
                PgError code msg \<Rightarrow>
                  if code = ''23505'' then
                    (case select_by_triple (submissions w1) (assignmentId opts)
                            (studentId opts) contentSha of
                       Some hit \<Rightarrow>
                         (Inr \<lparr>submissionId = submission_id hit, status = received,
                               extractionStatus_res = extraction_status hit,
                               ocrRequired_res = ocr_required hit\<rparr>,
                          w1\<lparr>console := console w1 @
                                [idempotent_race_winner (correlationId opts)
                                   (submission_id hit)]\<rparr>)
                     | None \<Rightarrow> (Inl err, w1))
                  else (Inl err, w1)
              | _ \<Rightarrow> (Inl err, w1))
         | Inr tbl \<Rightarrow> emit_events opts sid saved d (w1\<lparr>submissions := tbl\<rparr>))"

definition createSubmission ::
  "env \<Rightarrow> create_opts \<Rightarrow> world \<Rightarrow> (failure + create_result) \<times> world" where
  "createSubmission e opts w =
     (if length (buf opts) > 10 * 1024 * 1024 then
        (Inl (HttpError 413 ''too_large'' ''Max file size is 10 MB''), w)
      else
        (let contentSha = sha256 e (buf opts)
         in case select_by_triple (submissions w) (assignmentId opts) (studentId opts)
                   contentSha of
              Some hit \<Rightarrow>
                (Inr \<lparr>submissionId = submission_id hit, status = received,
                      extractionStatus_res = extraction_status hit,
                      ocrRequired_res = ocr_required hit\<rparr>,
                 w\<lparr>console := console w @
                      [idempotent_hit (correlationId opts) (submission_id hit)]\<rparr>)
            | None \<Rightarrow>
                (let ext = pickExt (mime opts);
                     sid = new_submission_id e
                 in case saveOriginal e (buf opts) (grade opts) (assignmentId opts) sid ext
                           (artifacts w) of
                      (Inl msg, arts) \<Rightarrow> (Inl (StorageError msg), w\<lparr>artifacts := arts\<rparr>)
                    | (Inr saved, arts) \<Rightarrow>
                        (let d = decideExtraction (mime opts) (buf opts)
                         in insert_main_row e opts contentSha sid saved d
                              (w\<lparr>artifacts := arts\<rparr>)))))"

section \<open>JavaScript numbers and text conversions\<close>

text \<open>
  A JavaScript number is a double. The numbers that occur here are integer-valued doubles,
  the two infinities and NaN. \<open>Num v\<close> is the double with the integer value \<open>v\<close>; negative
  zero is \<open>Num 0\<close>.
\<close>

datatype jsnumber = NaN | Num int | PosInf | NegInf

text \<open>
  The double nearest to a non-negative integer: integers of at most 53 bits are doubles;
  a longer one keeps its 53 leading bits, rounded to nearest with ties to the even
  significand. A result from \<open>2^1024\<close> on stands for an overflow to infinity.
\<close>

fun bit_length :: "nat \<Rightarrow> nat" where
  "bit_length n = (if n = 0 then 0 else Suc (bit_length (n div 2)))"

declare bit_length.simps [simp del]

definition round_double :: "nat \<Rightarrow> nat" where
  "round_double v =
     (if bit_length v \<le> 53 then v
      else (let e = bit_length v - 53;
                q = v div 2 ^ e;
                r = v mod 2 ^ e;
                h = 2 ^ (e - 1)
            in (if r > h \<or> (r = h \<and> odd q) then q + 1 else q) * 2 ^ e))"

text \<open>\<open>a + b\<close> on integer-valued doubles: the exact sum, rounded to a double.\<close>

definition number_add :: "int \<Rightarrow> int \<Rightarrow> int" where
  "number_add a b =
     (let t = a + b
      in if t < 0 then - int (round_double (nat (- t))) else int (round_double (nat t)))"

text \<open>
  \<open>String(n)\<close> of an integer-valued double (ECMAScript \<open>Number::toString\<close>, radix 10)
  prints the shortest decimal that reads back as the same double: digits \<open>s\<close> followed by
  \<open>p\<close> zeros, with the largest \<open>p\<close> for which such an \<open>s\<close> exists. With \<open>p\<close> zeros the
  only decimals that can read back as \<open>v\<close> and be closest to it are the multiples of
  \<open>10^p\<close> next to \<open>v\<close> on either side; of two that do, the closer one is taken, and the
  one with the even \<open>s\<close> when they are equally close.
\<close>

definition decimal_candidate :: "nat \<Rightarrow> nat \<Rightarrow> nat option" where
  "decimal_candidate v p =
     (let lo = (v div 10 ^ p) * 10 ^ p;
          hi = lo + 10 ^ p;
          lo_ok = (round_double lo = v);
          hi_ok = (round_double hi = v)
      in if lo_ok \<and> hi_ok then
           Some (if v - lo < hi - v then lo
                 else if hi - v < v - lo then hi
                 else if even (v div 10 ^ p) then lo else hi)
         else if lo_ok then Some lo
         else if hi_ok then Some hi
         else None)"

fun shortest_from :: "nat \<Rightarrow> nat \<Rightarrow> nat" where
  "shortest_from v 0 = v"
| "shortest_from v (Suc p) =
     (case decimal_candidate v (Suc p) of Some c \<Rightarrow> c | None \<Rightarrow> shortest_from v p)"

definition shortest_decimal :: "nat \<Rightarrow> nat" where
  "shortest_decimal v = shortest_from v (length (toString_radix 10 v) - 1)"

text \<open>
  The text of \<open>String(n)\<close>. The integer argument stands for the double nearest to it, as
  a numeric literal does, and for an infinity from \<open>2^1024\<close> on. The text is the digits
  of the shortest decimal when there are at most 21 of them, and exponent notation
  beyond: the significant digits without trailing zeros, a point after the first when
  there are several, and \<open>e+\<close> with the exponent.
\<close>

definition strip_trailing_zeros :: "string \<Rightarrow> string" where
  "strip_trailing_zeros ds = rev (dropWhile (\<lambda>c. c = CHR ''0'') (rev ds))"

definition number_toString :: "int \<Rightarrow> string" where
  "number_toString v =
     (let d = round_double (nat \<bar>v\<bar>);
          ds = toString_radix 10 (shortest_decimal d);
          body = (if d \<ge> 2 ^ 1024 then ''Infinity''
                  else if length ds \<le> 21 then ds
                  else (let sig = strip_trailing_zeros ds
                        in take 1 sig @ (if length sig > 1 then ''.'' @ drop 1 sig else [])
                           @ ''e+'' @ toString_radix 10 (length ds - 1)))
      in if v < 0 then ''-'' @ body else body)"

text \<open>
  Text decoded from arbitrary bytes can hold any Unicode code point, so \<open>parseInt\<close> reads a
  list of code points. \<open>codepoints\<close> is a string of code units below 256 as such a list.
\<close>

definition codepoints :: "string \<Rightarrow> nat list" where
  "codepoints s = map of_char s"

text \<open>ECMAScript \<open>WhiteSpace\<close> and \<open>LineTerminator\<close>, which \<open>parseInt\<close> and \<open>trim\<close> strip.\<close>

definition is_js_whitespace :: "nat \<Rightarrow> bool" where
  "is_js_whitespace c \<longleftrightarrow>
     c = 0x09 \<or> c = 0x0A \<or> c = 0x0B \<or> c = 0x0C \<or> c = 0x0D \<or> c = 0x20 \<or> c = 0xA0
     \<or> c = 0x1680 \<or> (0x2000 \<le> c \<and> c \<le> 0x200A) \<or> c = 0x2028 \<or> c = 0x2029
     \<or> c = 0x202F \<or> c = 0x205F \<or> c = 0x3000 \<or> c = 0xFEFF"

definition is_decimal_digit :: "nat \<Rightarrow> bool" where
  "is_decimal_digit c \<longleftrightarrow> 48 \<le> c \<and> c \<le> 57"

definition digits_value :: "nat list \<Rightarrow> nat" where
  "digits_value z = foldl (\<lambda>a c. a * 10 + (c - 48)) 0 z"

text \<open>
  \<open>parseInt(s, 10)\<close>: skip leading white space, read an optional sign, read the longest
  run of decimal digits; NaN when the run is empty. The value of the run is rounded to a
  double, and is an infinity when that overflows. (The standard lets an implementation
  read the digits after the 20th significant one as zeros; here every digit counts.)
\<close>

definition parseInt10 :: "nat list \<Rightarrow> jsnumber" where
  "parseInt10 s =
     (let s1 = dropWhile is_js_whitespace s;
          neg = (case s1 of [] \<Rightarrow> False | c # _ \<Rightarrow> c = 0x2D);
          s2 = (case s1 of [] \<Rightarrow> [] | c # r \<Rightarrow> if c = 0x2D \<or> c = 0x2B then r else s1);
          z = takeWhile is_decimal_digit s2
      in if z = [] then NaN
         else (let v = int (round_double (digits_value z))
               in if v \<ge> 2 ^ 1024 then (if neg then NegInf else PosInf)
                  else Num (if neg then - v else v)))"


text \<open>
  \<open>Buffer.from(s, "utf8")\<close> for a string of code units below 256: one byte below 128, two
  bytes from there on.
\<close>

definition utf8_bytes :: "string \<Rightarrow> buffer" where
  "utf8_bytes s =
     concat (map (\<lambda>c. let n = of_char c :: nat
                       in if n < 128 then [c]
                          else [char_of (192 + n div 64), char_of (128 + n mod 64)]) s)"

text \<open>
  \<open>buf.toString("utf8")\<close>, on byte values, to code points: the decoder of the Encoding
  standard, which answers U+FFFD for every maximal ill-formed part.
\<close>

fun utf8_decode :: "nat list \<Rightarrow> nat list" where
  "utf8_decode [] = []"
| "utf8_decode (b # bs) =
     (if b < 0x80 then b # utf8_decode bs
      else if 0xC2 \<le> b \<and> b \<le> 0xDF then
        (case bs of
           [] \<Rightarrow> [0xFFFD]
         | c1 # r1 \<Rightarrow>
             if 0x80 \<le> c1 \<and> c1 \<le> 0xBF
             then ((b - 0xC0) * 64 + (c1 - 0x80)) # utf8_decode r1
             else 0xFFFD # utf8_decode bs)
      else if 0xE0 \<le> b \<and> b \<le> 0xEF then
        (case bs of
           [] \<Rightarrow> [0xFFFD]
         | c1 # r1 \<Rightarrow>
             if (if b = 0xE0 then 0xA0 else 0x80) \<le> c1
                \<and> c1 \<le> (if b = 0xED then 0x9F else 0xBF)
             then (case r1 of
                     [] \<Rightarrow> [0xFFFD]
                   | c2 # r2 \<Rightarrow>
                       if 0x80 \<le> c2 \<and> c2 \<le> 0xBF
                       then ((b - 0xE0) * 4096 + (c1 - 0x80) * 64 + (c2 - 0x80))
                              # utf8_decode r2
                       else 0xFFFD # utf8_decode r1)
             else 0xFFFD # utf8_decode bs)
      else if 0xF0 \<le> b \<and> b \<le> 0xF4 then
        (case bs of
           [] \<Rightarrow> [0xFFFD]
         | c1 # r1 \<Rightarrow>
             if (if b = 0xF0 then 0x90 else 0x80) \<le> c1
                \<and> c1 \<le> (if b = 0xF4 then 0x8F else 0xBF)
             then (case r1 of
                     [] \<Rightarrow> [0xFFFD]
                   | c2 # r2 \<Rightarrow>
                       if 0x80 \<le> c2 \<and> c2 \<le> 0xBF
                       then (case r2 of
                               [] \<Rightarrow> [0xFFFD]
                             | c3 # r3 \<Rightarrow>
                                 if 0x80 \<le> c3 \<and> c3 \<le> 0xBF
                                 then ((b - 0xF0) * 262144 + (c1 - 0x80) * 4096
                                         + (c2 - 0x80) * 64 + (c3 - 0x80))
                                        # utf8_decode r3
                                 else 0xFFFD # utf8_decode r2)
                       else 0xFFFD # utf8_decode r1)
             else 0xFFFD # utf8_decode bs)
      else 0xFFFD # utf8_decode bs)"

definition toString_utf8 :: "buffer \<Rightarrow> nat list" where
  "toString_utf8 b = utf8_decode (map of_char b)"

section \<open>Base64url\<close>

text \<open>\<open>buf.toString("base64url")\<close>: the URL-safe alphabet, no padding.\<close>

definition base64url_char :: "nat \<Rightarrow> char" where
  "base64url_char i =
     ''ABCDEFGHIJKLMNOPQRSTUVWXYZabcdefghijklmnopqrstuvwxyz0123456789-_'' ! i"

fun sextets_of_bytes :: "nat list \<Rightarrow> nat list" where
  "sextets_of_bytes (a # b # c # r) =
     [a div 4, (a mod 4) * 16 + b div 16, (b mod 16) * 4 + c div 64, c mod 64]
       @ sextets_of_bytes r"
| "sextets_of_bytes [a, b] = [a div 4, (a mod 4) * 16 + b div 16, (b mod 16) * 4]"
| "sextets_of_bytes [a] = [a div 4, (a mod 4) * 16]"
| "sextets_of_bytes [] = []"

definition toString_base64url :: "buffer \<Rightarrow> string" where
  "toString_base64url b = map base64url_char (sextets_of_bytes (map of_char b))"

text \<open>
  \<open>Buffer.from(s, "base64url")\<close>. Node's decoder accepts both alphabets, skips every
  character outside them, stops at the first \<open>=\<close>, and turns each group of four sextets
  into three bytes; a last group of two or three sextets gives one or two bytes, a single
  left-over sextet none.
\<close>

definition unbase64 :: "char \<Rightarrow> nat option" where
  "unbase64 c =
     (let n = of_char c :: nat
      in if 65 \<le> n \<and> n \<le> 90 then Some (n - 65)
         else if 97 \<le> n \<and> n \<le> 122 then Some (n - 71)
         else if 48 \<le> n \<and> n \<le> 57 then Some (n + 4)
         else if c = CHR ''+'' \<or> c = CHR ''-'' then Some 62
         else if c = CHR ''/'' \<or> c = CHR ''_'' then Some 63
         else None)"

fun bytes_of_sextets :: "nat list \<Rightarrow> nat list" where
  "bytes_of_sextets (a # b # c # d # r) =
     [a * 4 + b div 16, (b mod 16) * 16 + c div 4, (c mod 4) * 64 + d] @ bytes_of_sextets r"
| "bytes_of_sextets [a, b, c] = [a * 4 + b div 16, (b mod 16) * 16 + c div 4]"
| "bytes_of_sextets [a, b] = [a * 4 + b div 16]"
| "bytes_of_sextets [a] = []"
| "bytes_of_sextets [] = []"

definition from_base64url :: "string \<Rightarrow> buffer" where
  "from_base64url s =
     map char_of (bytes_of_sextets
                    (List.map_filter unbase64 (takeWhile (\<lambda>c. c \<noteq> CHR ''='') s)))"

section \<open>utils/cursor.ts\<close>

definition encodeCursor :: "int \<Rightarrow> string" where
  "encodeCursor n = toString_base64url (utf8_bytes (number_toString n))"

text \<open>The argument is \<open>None\<close> for \<open>undefined\<close>; \<open>!c\<close> also holds for the empty string.\<close>

definition decodeCursor :: "string option \<Rightarrow> int" where
  "decodeCursor c =
     (case c of
        None \<Rightarrow> 0
      | Some t \<Rightarrow>
          if t = [] then 0
          else (let s = toString_utf8 (from_base64url t);
                    n = parseInt10 s
                in case n of Num v \<Rightarrow> if v \<ge> 0 then v else 0 | _ \<Rightarrow> 0))"

section \<open>modules/submissions/service.ts: listSubmissions\<close>

text \<open>
  A query parameter bound to \<open>LIMIT\<close> or \<open>OFFSET\<close> is sent as the text \<open>String(x)\<close> and
  read by the database as a \<open>bigint\<close>: an optional minus sign and decimal digits, within
  64 bits. \<open>NaN\<close>, \<open>Infinity\<close> and exponent notation are no integer syntax.
\<close>

definition number_text :: "jsnumber \<Rightarrow> string" where
  "number_text x =
     (case x of NaN \<Rightarrow> ''NaN'' | PosInf \<Rightarrow> ''Infinity'' | NegInf \<Rightarrow> ''-Infinity''
      | Num v \<Rightarrow> number_toString v)"

definition pg_int8in :: "string \<Rightarrow> failure + int" where
  "pg_int8in t =
     (let neg = (case t of [] \<Rightarrow> False | c # _ \<Rightarrow> c = CHR ''-'');
          ds = (if neg then drop 1 t else t)
      in if ds = [] \<or> \<not> list_all (\<lambda>c. is_decimal_digit (of_char c)) ds then
           Inl (PgError ''22P02'' ''invalid input syntax for type bigint'')
         else (let v = (if neg then - int (digits_value (codepoints ds))
                        else int (digits_value (codepoints ds)))
               in if v < - (2 ^ 63) \<or> v \<ge> 2 ^ 63 then
                    Inl (PgError ''22003'' ''value is out of range for type bigint'')
                  else Inr v))"

definition pg_bigint :: "jsnumber \<Rightarrow> failure + int" where
  "pg_bigint x = pg_int8in (number_text x)"

record list_page =
  items :: "submission_row list"
  count :: nat

text \<open>
  \<open>SELECT ... FROM app.submissions ORDER BY created_at DESC LIMIT $1 OFFSET $2\<close>, and
  \<open>{ items: rows, count: rows.length }\<close>. A negative offset or limit is an error of the
  database. The call reads the table and changes nothing.
\<close>

definition listSubmissions :: "jsnumber \<Rightarrow> jsnumber \<Rightarrow> world \<Rightarrow> failure + list_page" where
  "listSubmissions limit offset w =
     (case pg_bigint limit of
        Inl err \<Rightarrow> Inl err
      | Inr l \<Rightarrow>
          (case pg_bigint offset of
             Inl err \<Rightarrow> Inl err
           | Inr off \<Rightarrow>
               if off < 0 then Inl (PgError ''2201X'' ''OFFSET must not be negative'')
               else if l < 0 then Inl (PgError ''2201W'' ''LIMIT must not be negative'')
               else (let rows = take (nat l)
                                  (drop (nat off) (rev (sort_key created_at (submissions w))))
                     in Inr \<lparr>items = rows, count = length rows\<rparr>)))"

section \<open>modules/submissions/controller.ts\<close>





record upload_file =
  buffer :: buffer
  mimetype :: string
  originalname :: string


record http_response =
  http_status :: nat
  header_x_correlation_id :: "string option"
  header_x_next_cursor :: "string option"
  json_body :: json










text \<open>
  \<open>GET /submissions\<close>.
  \<open>Math.min(parseInt(String(req.query.pageSize ?? "20"), 10) || 20, 200)\<close>: the query
  value is a string or absent; \<open>x || 20\<close> replaces NaN and zero.
\<close>

definition or_20 :: "jsnumber \<Rightarrow> jsnumber" where
  "or_20 x = (case x of NaN \<Rightarrow> Num 20 | Num v \<Rightarrow> if v = 0 then Num 20 else Num v | _ \<Rightarrow> x)"

definition min_200 :: "jsnumber \<Rightarrow> jsnumber" where
  "min_200 x =
     (case x of NaN \<Rightarrow> NaN | Num v \<Rightarrow> Num (min v 200) | PosInf \<Rightarrow> Num 200 | NegInf \<Rightarrow> NegInf)"

definition pageSize_of :: "string option \<Rightarrow> jsnumber" where
  "pageSize_of q =
     min_200 (or_20 (parseInt10 (codepoints (case q of None \<Rightarrow> ''20'' | Some t \<Rightarrow> t))))"

text \<open>Adapter from the database row to the public shape.\<close>

definition json_of_option :: "string option \<Rightarrow> json" where
  "json_of_option x = (case x of None \<Rightarrow> JNull | Some t \<Rightarrow> JStr t)"

definition toApi :: "submission_row \<Rightarrow> json" where
  "toApi row =
     JObj [(''id'', JStr (submission_id row)),
           (''assignmentId'', JStr (assignment_id row)),
           (''studentId'', JStr (student_id row)),
           (''mime'', JStr (mime_col row)),
           (''size'', JNum (size_col row)),
           (''status'', JStr (case status_col row of received \<Rightarrow> ''received''
                              | error \<Rightarrow> ''error'' | deleted \<Rightarrow> ''deleted'')),
           (''extractionStatus'',
              JStr (case extraction_status row of parsed \<Rightarrow> ''parsed''
                    | pending_ocr \<Rightarrow> ''pending_ocr'')),
           (''ocrRequired'', JBool (ocr_required row)),
           (''extractedText'', json_of_option (extracted_text row)),
           (''storagePath'', JStr (storage_path row)),
           (''createdAt'', JNum (int (created_at row))),
           (''updatedAt'', JNum (int (updated_at row)))]"

text \<open>
  The handler has no \<open>try\<close>: when the service call fails, the failure is what the handler
  ends with and no response is built.
\<close>

definition listSubmissions_handler ::
  "string option \<Rightarrow> string option \<Rightarrow> world \<Rightarrow> failure + http_response" where
  "listSubmissions_handler q_pageSize q_cursor w =
     (let pageSize = pageSize_of q_pageSize;
          cursor = (case q_cursor of None \<Rightarrow> [] | Some t \<Rightarrow> t);
          offset = decodeCursor (Some cursor)
      in case listSubmissions pageSize (Num offset) w of
           Inl err \<Rightarrow> Inl err
         | Inr page \<Rightarrow>
             (let nextCursor = (case pageSize of
                                  Num p \<Rightarrow> if int (length (items page)) = p
                                           then encodeCursor (number_add offset p) else []
                                | _ \<Rightarrow> []);
                  hdr = (if nextCursor \<noteq> [] then Some nextCursor else None)
              in Inr \<lparr>http_status = 200, header_x_correlation_id = None,
                      header_x_next_cursor = hdr,
                      json_body = JObj [(''items'', JArr (map toApi (items page))),
                                        (''count'', JNum (int (count page)))]\<rparr>))"

section \<open>Auxiliary notions for the statements\<close>

text \<open>
  The follow-up event of a classification, and the shapes the list of events appended by
  one call can have.
\<close>

definition followup_event :: "create_opts \<Rightarrow> string \<Rightarrow> extraction \<Rightarrow> event_row" where
  "followup_event opts sid d =
     (if extractionStatus d = parsed then parsed_event opts sid else ocr_pending_event opts sid)"

definition event_shape :: "event_row list \<Rightarrow> bool" where
  "event_shape new \<longleftrightarrow>
     new = [] \<or> (\<exists>c. new = [c] \<and> event_type c = ''submission.created'')
     \<or> (\<exists>c f. new = [c, f] \<and> event_type c = ''submission.created''
              \<and> submission_id_ev f = submission_id_ev c
              \<and> (event_type f = ''submission.parsed'' \<or> event_type f = ''submission.ocr_pending''))"

section \<open>Concrete inputs\<close>

text \<open>
  The inputs of the concrete evaluations below. \<open>sum_hash\<close> stands in for SHA-256 there
  (the general statements hold for every hash function), and \<open>memory_saveOriginal\<close> is a
  storage provider that keeps the bytes in the artifact list under the path layout of the
  local provider, \<open>grade-or-class/assignmentId/submissionId/original.ext\<close>.
\<close>

definition sum_hash :: "buffer \<Rightarrow> string" where
  "sum_hash b = toString_radix 16 (sum_list (map of_char b))"

definition memory_saveOriginal ::
  "(buffer \<Rightarrow> string) \<Rightarrow> buffer \<Rightarrow> string option \<Rightarrow> string \<Rightarrow> string \<Rightarrow> string
     \<Rightarrow> (string \<times> buffer) list \<Rightarrow> (string + SavedObject) \<times> (string \<times> buffer) list" where
  "memory_saveOriginal h b g a sid ext arts =
     (let p = (case g of None \<Rightarrow> ''class'' | Some x \<Rightarrow> if x = [] then ''class'' else x)
                @ ''/'' @ a @ ''/'' @ sid @ ''/original'' @ ext
      in (Inr \<lparr>storagePath = p, absolutePath = ''/srv/artifacts/'' @ p,
               sha256_saved = h b, size_saved = int (length b)\<rparr>,
          arts @ [(p, b)]))"

definition env0 :: env where
  "env0 = \<lparr>sha256 = sum_hash, date_now = 1730592000000, random_suffix = ''k3x9qa'',
           db_now = 7, saveOriginal = memory_saveOriginal sum_hash, concurrent = []\<rparr>"

definition opts0 :: create_opts where
  "opts0 = \<lparr>assignmentId = ''a1'', studentId = ''s1'', grade = None, buf = ''hello'',
            mime = ''text/plain'', originalName = Some ''editor.txt'',
            correlationId = Some ''c-1'', dataMode = Some ''sandbox''\<rparr>"

definition row0 :: submission_row where
  "row0 = \<lparr>submission_id = ''sub_18f0a1b2c3d_zz91ab'', assignment_id = ''a1'', student_id = ''s1'',
           mime_col = ''text/plain'', size_col = 5, sha256_col = Some (sum_hash ''hello''),
           storage_path = ''class/a1/sub_18f0a1b2c3d_zz91ab/original.txt'',
           status_col = received, extraction_status = parsed, ocr_required = False,
           extracted_text = Some ''[stub] Extracted text from document'',
           created_at = 3, updated_at = 3, correlation_id = Some ''c-0''\<rparr>"

definition world0 :: world where
  "world0 = \<lparr>submissions = [], submission_events = [], artifacts = [], cache = [], console = []\<rparr>"

definition env1 :: env where
  "env1 = env0\<lparr>concurrent := [row0]\<rparr>"

definition row1 :: submission_row where
  "row1 = \<lparr>submission_id = ''sub_192ef524800_k3x9qa'', assignment_id = ''a0'', student_id = ''s9'',
           mime_col = ''image/png'', size_col = 120, sha256_col = Some ''77'',
           storage_path = ''class/a0/sub_192ef524800_k3x9qa/original.png'',
           status_col = received, extraction_status = pending_ocr, ocr_required = True,
           extracted_text = None, created_at = 7, updated_at = 7, correlation_id = None\<rparr>"

definition saved0 :: SavedObject where
  "saved0 = \<lparr>storagePath = ''class/a1/sub_192ef524800_k3x9qa/original.txt'',
             absolutePath = ''/srv/artifacts/class/a1/sub_192ef524800_k3x9qa/original.txt'',
             sha256_saved = sum_hash ''hello'', size_saved = 5\<rparr>"



section \<open>Facts about the tables and the steps of createSubmission\<close>

lemma select_by_triple_None:
  "select_by_triple tbl a s h = None \<longleftrightarrow>
     \<not> (\<exists>r \<in> set tbl. assignment_id r = a \<and> student_id r = s \<and> sha256_col r = Some h)"
proof -
  let ?P = "\<lambda>r. assignment_id r = a \<and> student_id r = s \<and> sha256_col r = Some h"
  let ?xs = "sort_key created_at (filter ?P tbl)"
  have "(?xs = []) = (filter ?P tbl = [])"
    by (simp only: set_empty [symmetric] set_sort)
  then have "?xs = [] \<longleftrightarrow> \<not> (\<exists>r \<in> set tbl. ?P r)"
    by (simp add: filter_empty_conv)
  then show ?thesis
    unfolding select_by_triple_def by (auto split: list.splits)
qed

lemma select_by_triple_Some:
  assumes "select_by_triple tbl a s h = Some r"
  shows "r \<in> set tbl \<and> assignment_id r = a \<and> student_id r = s \<and> sha256_col r = Some h
         \<and> (\<forall>x \<in> set tbl. assignment_id x = a \<and> student_id x = s \<and> sha256_col x = Some h
               \<longrightarrow> created_at r \<le> created_at x)"
proof -
  let ?P = "\<lambda>r. assignment_id r = a \<and> student_id r = s \<and> sha256_col r = Some h"
  let ?xs = "sort_key created_at (filter ?P tbl)"
  from assms obtain rest where xs: "?xs = r # rest"
    unfolding select_by_triple_def by (auto split: list.splits)
  have set: "set ?xs = {r \<in> set tbl. ?P r}" by simp
  have "r \<in> set ?xs" using xs by simp
  then have mem: "r \<in> set tbl \<and> ?P r" using set by blast
  have "sorted (map created_at ?xs)" by simp
  then have "sorted (created_at r # map created_at rest)" using xs by simp
  then have "\<forall>x \<in> set rest. created_at r \<le> created_at x" by simp
  then have "\<forall>x \<in> set ?xs. created_at r \<le> created_at x" using xs by simp
  then have "\<forall>x \<in> set tbl. ?P x \<longrightarrow> created_at r \<le> created_at x" using set by blast
  with mem show ?thesis by blast
qed

lemma decideExtraction_cases:
  "extractionStatus (decideExtraction m b) = parsed \<or> ocrRequired (decideExtraction m b)"
  by (simp add: decideExtraction_def Let_def)

lemma insert_event_cases:
  "insert_event ev w = Inr w' \<Longrightarrow> w' = w\<lparr>submission_events := submission_events w @ [ev]\<rparr>"
  by (simp add: insert_event_def split: if_splits)

lemma insert_event_ok:
  "event_type_check (event_type ev) \<Longrightarrow> \<exists>x \<in> set (submissions w). submission_id x = submission_id_ev ev
   \<Longrightarrow> insert_event ev w = Inr (w\<lparr>submission_events := submission_events w @ [ev]\<rparr>)"
  by (simp add: insert_event_def)

lemma insert_event_failure: "insert_event ev w = Inl f \<Longrightarrow> \<exists>c m. f = PgError c m"
  by (auto simp: insert_event_def split: if_splits)

lemma insert_submission_ok:
  assumes "0 < size_col r" "size_col r \<le> 10485760"
      and "\<forall>x \<in> set tbl. submission_id x \<noteq> submission_id r"
      and "\<forall>x \<in> set tbl. \<not> (assignment_id x = assignment_id r \<and> student_id x = student_id r
                               \<and> sha256_col x = sha256_col r)"
  shows "insert_submission r tbl = Inr (tbl @ [r])"
  using assms by (auto simp: insert_submission_def)

lemma insert_submission_Inr: "insert_submission r tbl = Inr t \<Longrightarrow> t = tbl @ [r]"
  by (auto simp: insert_submission_def split: if_splits)

lemma insert_submission_failure: "insert_submission r tbl = Inl f \<Longrightarrow> \<exists>c m. f = PgError c m"
  by (auto simp: insert_submission_def split: if_splits)

lemma emit_events_shape:
  "\<exists>new. submission_events (snd (emit_events opts sid saved d w)) = submission_events w @ new
     \<and> (new = [] \<or> (\<exists>c. new = [c] \<and> submission_id_ev c = sid \<and> event_type c = ''submission.created'')
        \<or> (\<exists>c f. new = [c, f] \<and> submission_id_ev c = sid \<and> event_type c = ''submission.created''
              \<and> submission_id_ev f = sid
              \<and> (event_type f = ''submission.parsed'' \<or> event_type f = ''submission.ocr_pending'')))"
  unfolding emit_events_def
  by (auto simp: Let_def created_event_def parsed_event_def ocr_pending_event_def
           split: sum.splits prod.splits dest!: insert_event_cases)

lemma emit_events_shape':
  "\<exists>new. submission_events (snd (emit_events opts sid saved d w)) = submission_events w @ new
     \<and> event_shape new"
  using emit_events_shape [of opts sid saved d w] unfolding event_shape_def by metis

lemma emit_events_fresh:
  assumes fk: "\<exists>x \<in> set (submissions w). submission_id x = sid"
      and d: "extractionStatus d = parsed \<or> ocrRequired d"
  shows "emit_events opts sid saved d w =
     (Inr \<lparr>submissionId = sid, status = received,
           extractionStatus_res = extractionStatus d, ocrRequired_res = ocrRequired d\<rparr>,
      w\<lparr>submission_events := submission_events w
            @ [created_event opts sid saved, followup_event opts sid d],
        cache := snd (cacheDelByPrefix ''courses:v1:'' (cache w)),
        console := console w @ [cache_invalidate (fst (cacheDelByPrefix ''courses:v1:'' (cache w)))
                                  (correlationId opts)]\<rparr>)"
proof -
  have c: "insert_event (created_event opts sid saved) w
           = Inr (w\<lparr>submission_events := submission_events w @ [created_event opts sid saved]\<rparr>)"
    using fk by (intro insert_event_ok) (simp_all add: created_event_def event_type_check_def)
  have p: "insert_event (parsed_event opts sid) w'
           = Inr (w'\<lparr>submission_events := submission_events w' @ [parsed_event opts sid]\<rparr>)"
    if "submissions w' = submissions w" for w'
    using fk that by (intro insert_event_ok) (simp_all add: parsed_event_def event_type_check_def)
  have o: "insert_event (ocr_pending_event opts sid) w'
           = Inr (w'\<lparr>submission_events := submission_events w' @ [ocr_pending_event opts sid]\<rparr>)"
    if "submissions w' = submissions w" for w'
    using fk that by (intro insert_event_ok) (simp_all add: ocr_pending_event_def event_type_check_def)
  show ?thesis
    using d unfolding emit_events_def
    by (auto simp: c p o Let_def followup_event_def split: prod.splits)
qed

lemma emit_events_failure:
  "fst (emit_events opts sid saved d w) = Inl f \<Longrightarrow> \<exists>c m. f = PgError c m"
  unfolding emit_events_def
  by (auto simp: Let_def split: sum.splits prod.splits if_splits dest: insert_event_failure)

lemma insert_main_row_shape:
  "\<exists>new. submission_events (snd (insert_main_row e opts h sid saved d w)) = submission_events w @ new
     \<and> event_shape new"
proof (cases "insert_submission (new_row e opts h sid saved d) (submissions w @ concurrent e)")
  case (Inl err)
  then have "submission_events (snd (insert_main_row e opts h sid saved d w)) = submission_events w"
    by (simp add: insert_main_row_def Let_def split: failure.splits option.splits)
  then show ?thesis by (simp add: event_shape_def)
next
  case (Inr tbl)
  then have "insert_main_row e opts h sid saved d w =
             emit_events opts sid saved d (w\<lparr>submissions := tbl\<rparr>)"
    by (simp add: insert_main_row_def Let_def)
  then show ?thesis
    using emit_events_shape' [of opts sid saved d "w\<lparr>submissions := tbl\<rparr>"] by simp
qed

lemma insert_main_row_failure:
  "fst (insert_main_row e opts h sid saved d w) = Inl f \<Longrightarrow> \<exists>c m. f = PgError c m"
  unfolding insert_main_row_def
  by (auto simp: Let_def split: sum.splits failure.splits option.splits if_splits
           dest: insert_submission_failure emit_events_failure)

lemma createSubmission_shape:
  "\<exists>new. submission_events (snd (createSubmission e opts w)) = submission_events w @ new
     \<and> event_shape new"
proof -
  have triv: "submission_events w' = submission_events w \<Longrightarrow>
     \<exists>new. submission_events w' = submission_events w @ new \<and> event_shape new" for w'
    by (simp add: event_shape_def)
  show ?thesis
  proof (cases "length (buf opts) > 10 * 1024 * 1024")
    case True
    then show ?thesis by (intro triv) (simp add: createSubmission_def)
  next
    case small: False
    show ?thesis
    proof (cases "select_by_triple (submissions w) (assignmentId opts) (studentId opts)
                    (sha256 e (buf opts))")
      case (Some hit)
      with small show ?thesis by (intro triv) (simp add: createSubmission_def)
    next
      case None
      obtain r arts where sv: "saveOriginal e (buf opts) (grade opts) (assignmentId opts)
           (new_submission_id e) (pickExt (mime opts)) (artifacts w) = (r, arts)"
        by (cases "saveOriginal e (buf opts) (grade opts) (assignmentId opts)
           (new_submission_id e) (pickExt (mime opts)) (artifacts w)")
      show ?thesis
      proof (cases r)
        case (Inl msg)
        with small None sv show ?thesis by (intro triv) (simp add: createSubmission_def)
      next
        case (Inr saved)
        with small None sv have "createSubmission e opts w =
            insert_main_row e opts (sha256 e (buf opts)) (new_submission_id e) saved
              (decideExtraction (mime opts) (buf opts)) (w\<lparr>artifacts := arts\<rparr>)"
          by (simp add: createSubmission_def)
        then show ?thesis
          using insert_main_row_shape [of e opts "sha256 e (buf opts)" "new_submission_id e" saved
              "decideExtraction (mime opts) (buf opts)" "w\<lparr>artifacts := arts\<rparr>"] by simp
      qed
    qed
  qed
qed

lemma createSubmission_failure:
  assumes "length (buf opts) \<le> 10485760" and "fst (createSubmission e opts w) = Inl f"
  shows "(\<exists>c m. f = PgError c m) \<or> (\<exists>m. f = StorageError m)"
  using assms unfolding createSubmission_def
  by (auto simp: Let_def split: option.splits prod.splits sum.splits
           dest: insert_main_row_failure)

lemma createSubmission_fresh:
  assumes size: "length (buf opts) \<le> 10485760"
      and miss: "select_by_triple (submissions w) (assignmentId opts) (studentId opts)
                   (sha256 e (buf opts)) = None"
      and save: "saveOriginal e (buf opts) (grade opts) (assignmentId opts) (new_submission_id e)
                   (pickExt (mime opts)) (artifacts w) = (Inr saved, arts)"
      and ins: "insert_submission
                  (new_row e opts (sha256 e (buf opts)) (new_submission_id e) saved
                     (decideExtraction (mime opts) (buf opts)))
                  (submissions w @ concurrent e) = Inr tbl"
  shows "createSubmission e opts w =
     (Inr \<lparr>submissionId = new_submission_id e, status = received,
           extractionStatus_res = extractionStatus (decideExtraction (mime opts) (buf opts)),
           ocrRequired_res = ocrRequired (decideExtraction (mime opts) (buf opts))\<rparr>,
      w\<lparr>submissions := submissions w @ concurrent e
            @ [new_row e opts (sha256 e (buf opts)) (new_submission_id e) saved
                 (decideExtraction (mime opts) (buf opts))],
        submission_events := submission_events w
            @ [created_event opts (new_submission_id e) saved,
               followup_event opts (new_submission_id e)
                 (decideExtraction (mime opts) (buf opts))],
        artifacts := arts,
        cache := snd (cacheDelByPrefix ''courses:v1:'' (cache w)),
        console := console w @ [cache_invalidate (fst (cacheDelByPrefix ''courses:v1:'' (cache w)))
                                  (correlationId opts)]\<rparr>)"
proof -
  let ?d = "decideExtraction (mime opts) (buf opts)"
  let ?sid = "new_submission_id e"
  let ?row = "new_row e opts (sha256 e (buf opts)) ?sid saved ?d"
  have tbl: "tbl = (submissions w @ concurrent e) @ [?row]"
    using insert_submission_Inr [OF ins] .
  let ?w1 = "w\<lparr>artifacts := arts, submissions := tbl\<rparr>"
  have step: "createSubmission e opts w = emit_events opts ?sid saved ?d ?w1"
    using size miss save ins by (simp add: createSubmission_def insert_main_row_def Let_def)
  have fk: "\<exists>x \<in> set (submissions ?w1). submission_id x = ?sid"
    by (simp add: tbl new_row_def)
  show ?thesis
    unfolding step emit_events_fresh [OF fk decideExtraction_cases]
    by (simp add: tbl)
qed

lemma createSubmission_conflict_step:
  assumes size: "length (buf opts) \<le> 10485760"
      and miss: "select_by_triple (submissions w) (assignmentId opts) (studentId opts)
                   (sha256 e (buf opts)) = None"
      and save: "saveOriginal e (buf opts) (grade opts) (assignmentId opts) (new_submission_id e)
                   (pickExt (mime opts)) (artifacts w) = (Inr saved, arts)"
      and ins: "insert_submission
                  (new_row e opts (sha256 e (buf opts)) (new_submission_id e) saved
                     (decideExtraction (mime opts) (buf opts)))
                  (submissions w @ concurrent e) = Inl (PgError ''23505'' msg)"
  shows "createSubmission e opts w =
      (case select_by_triple (submissions w @ concurrent e) (assignmentId opts) (studentId opts)
              (sha256 e (buf opts)) of
         Some hit \<Rightarrow>
           (Inr \<lparr>submissionId = submission_id hit, status = received,
                 extractionStatus_res = extraction_status hit,
                 ocrRequired_res = ocr_required hit\<rparr>,
            w\<lparr>submissions := submissions w @ concurrent e, artifacts := arts,
              console := console w @ [idempotent_race_winner (correlationId opts)
                                        (submission_id hit)]\<rparr>)
       | None \<Rightarrow> (Inl (PgError ''23505'' msg),
                  w\<lparr>submissions := submissions w @ concurrent e, artifacts := arts\<rparr>))"
  using size miss save ins
  by (simp add: createSubmission_def insert_main_row_def Let_def split: option.splits)

section \<open>Facts about the concrete inputs\<close>

lemma env0_sel:
  "sha256 env0 = sum_hash" "db_now env0 = 7" "concurrent env0 = []"
  "saveOriginal env0 = memory_saveOriginal sum_hash"
  "new_submission_id env0 = ''sub_192ef524800_k3x9qa''"
  by (simp_all add: env0_def new_submission_id_def toString_radix.simps digit_char_def)

lemma env1_sel:
  "sha256 env1 = sum_hash" "db_now env1 = 7" "concurrent env1 = [row0]"
  "saveOriginal env1 = memory_saveOriginal sum_hash"
  "new_submission_id env1 = ''sub_192ef524800_k3x9qa''"
  by (simp_all add: env1_def env0_def new_submission_id_def toString_radix.simps digit_char_def)

lemmas fixture_defs = opts0_def world0_def env0_sel env1_sel row0_def row1_def saved0_def
  memory_saveOriginal_def

lemma save0: "saveOriginal env0 (buf opts0) (grade opts0) (assignmentId opts0)
   (new_submission_id env0) (pickExt (mime opts0)) (artifacts world0)
  = (Inr saved0, [(''class/a1/sub_192ef524800_k3x9qa/original.txt'', ''hello'')])"
  by (simp add: fixture_defs pickExt_def Let_def)

section \<open>Facts about the marker pattern\<close>





section \<open>Facts about doubles\<close>

lemma bit_length_le: "v < 2 ^ k \<Longrightarrow> bit_length v \<le> k"
proof (induction k arbitrary: v)
  case 0
  then show ?case by (simp add: bit_length.simps)
next
  case (Suc k)
  show ?case
  proof (cases "v = 0")
    case True
    then show ?thesis by (simp add: bit_length.simps)
  next
    case False
    from Suc.prems have "v div 2 < 2 ^ k" by simp
    from Suc.IH [OF this] False show ?thesis by (subst bit_length.simps) simp
  qed
qed

lemma bit_length_lower: "v \<noteq> 0 \<Longrightarrow> 2 ^ (bit_length v - 1) \<le> v"
proof (induction v rule: bit_length.induct)
  case (1 n)
  show ?case
  proof (cases "n div 2 = 0")
    case True
    with 1(2) have "n = 1" by (simp add: div_eq_0_iff) 
    then show ?thesis by (simp add: bit_length.simps)
  next
    case False
    with 1 have ih: "2 ^ (bit_length (n div 2) - 1) \<le> n div 2" by simp
    have pos: "bit_length (n div 2) \<noteq> 0" using False by (subst bit_length.simps) simp
    have "bit_length n = Suc (bit_length (n div 2))" using 1(2) by (subst bit_length.simps) simp
    then have "2 ^ (bit_length n - 1) = 2 * 2 ^ (bit_length (n div 2) - 1)"
      using pos by (cases "bit_length (n div 2)") simp_all
    also have "\<dots> \<le> 2 * (n div 2)" using ih by simp
    also have "\<dots> \<le> n" by simp
    finally show ?thesis .
  qed
qed

lemma round_double_exact: "v < 2 ^ 53 \<Longrightarrow> round_double v = v"
  by (simp add: round_double_def bit_length_le)

lemma round_double_ge:
  assumes "2 ^ 53 \<le> v"
  shows "2 ^ 53 \<le> round_double v"
proof (cases "bit_length v \<le> 53")
  case True
  with assms show ?thesis by (simp add: round_double_def)
next
  case False
  define e where "e = bit_length v - 53"
  have e: "bit_length v - 1 = 52 + e" "0 < e" using False by (simp_all add: e_def)
  have "v \<noteq> 0" using assms by auto
  from bit_length_lower [OF this] have "(2::nat) ^ (52 + e) \<le> v"
    unfolding e(1) .
  then have "(2::nat) ^ 52 * 2 ^ e \<le> v"
    unfolding power_add .
  then have q: "2 ^ 52 \<le> v div 2 ^ e"
    by (simp add: less_eq_div_iff_mult_less_eq)
  define q' where "q' = (if v mod 2 ^ e > 2 ^ (e - 1) \<or> (v mod 2 ^ e = 2 ^ (e - 1) \<and> odd (v div 2 ^ e))
                         then v div 2 ^ e + 1 else v div 2 ^ e)"
  have "2 ^ 52 \<le> q'" using q by (simp add: q'_def)
  then have a: "(2::nat) ^ 52 * 2 ^ e \<le> q' * 2 ^ e" by (rule mult_le_mono1)
  have "(2::nat) ^ 1 \<le> 2 ^ e" using e(2) by (intro power_increasing) simp_all
  then have "(2::nat) ^ 52 * 2 ^ 1 \<le> 2 ^ 52 * 2 ^ e" by (rule mult_le_mono2)
  then have b: "(2::nat) ^ 53 \<le> 2 ^ 52 * 2 ^ e" by simp
  have c: "round_double v = q' * 2 ^ e"
    using False by (simp add: round_double_def Let_def e_def q'_def)
  from b a show ?thesis unfolding c by (rule order_trans)
qed

lemma decimal_candidate_round: "decimal_candidate v p = Some c \<Longrightarrow> round_double c = v"
  by (auto simp: decimal_candidate_def Let_def split: if_splits)

lemma decimal_candidate_exact:
  assumes v: "v < 2 ^ 53" and c: "decimal_candidate v p = Some c"
  shows "c = v"
proof -
  let ?lo = "(v div 10 ^ p) * 10 ^ p"
  let ?hi = "?lo + 10 ^ p"
  have lo: "?lo \<le> v" by simp
  from le_less_trans [OF lo v] have "round_double ?lo = ?lo" by (rule round_double_exact)
  then have lo_ok: "round_double ?lo = v \<longleftrightarrow> ?lo = v" by simp
  have hi: "v < ?hi"
    by (metis add.commute div_mult_mod_eq mod_less_divisor add_less_cancel_left zero_less_numeral zero_less_power)
  have hi_no: "round_double ?hi \<noteq> v"
  proof (cases "?hi < 2 ^ 53")
    case True
    then have "round_double ?hi = ?hi" by (rule round_double_exact)
    with hi show ?thesis by simp
  next
    case False
    then have "2 ^ 53 \<le> round_double ?hi" by (intro round_double_ge) simp
    with v show ?thesis by simp
  qed
  from c hi_no lo_ok show ?thesis
    by (auto simp: decimal_candidate_def Let_def split: if_splits)
qed

lemma shortest_from_exact: "v < 2 ^ 53 \<Longrightarrow> shortest_from v p = v"
proof (induction p)
  case 0
  then show ?case by simp
next
  case (Suc p)
  show ?case
  proof (cases "decimal_candidate v (Suc p)")
    case None
    with Suc show ?thesis by simp
  next
    case (Some c)
    from decimal_candidate_exact [OF Suc.prems Some] Some show ?thesis by simp
  qed
qed

lemma shortest_decimal_exact: "v < 2 ^ 53 \<Longrightarrow> shortest_decimal v = v"
  by (simp add: shortest_decimal_def shortest_from_exact)

lemma shortest_from_round: "round_double v = v \<Longrightarrow> round_double (shortest_from v p) = v"
  by (induction p) (auto split: option.splits dest: decimal_candidate_round)


lemma decimal_candidate_bound:
  assumes v: "v < 10 ^ N" and p: "p \<le> N" and c: "decimal_candidate v p = Some c"
  shows "c \<le> 10 ^ N"
proof -
  have split: "(10::nat) ^ N = 10 ^ (N - p) * 10 ^ p" using p by (simp flip: power_add)
  have "v div 10 ^ p < 10 ^ (N - p)"
    using v split by (simp add: less_mult_imp_div_less)
  then have "v div 10 ^ p + 1 \<le> 10 ^ (N - p)" by simp
  then have "(v div 10 ^ p + 1) * 10 ^ p \<le> 10 ^ (N - p) * 10 ^ p" by (rule mult_le_mono1)
  then have hi: "(v div 10 ^ p) * 10 ^ p + 10 ^ p \<le> 10 ^ N" using split by (simp add: algebra_simps)
  from c have "c = (v div 10 ^ p) * 10 ^ p \<or> c = (v div 10 ^ p) * 10 ^ p + 10 ^ p"
    by (auto simp: decimal_candidate_def Let_def split: if_splits)
  with hi show ?thesis by auto
qed

lemma shortest_from_bound: "v < 10 ^ N \<Longrightarrow> p \<le> N \<Longrightarrow> shortest_from v p \<le> 10 ^ N"
  by (induction p) (auto split: option.splits dest: decimal_candidate_bound)

lemma round_double_10_21: "round_double 1000000000000000000000 = 1000000000000000000000"
  by (simp add: round_double_def bit_length.simps Let_def)



section \<open>Facts about decimal text, base64url and UTF-8\<close>

lemma digit_char_decimal: "d < 10 \<Longrightarrow> of_char (digit_char d) = (48 + d :: nat)"
proof -
  assume "d < 10"
  then have "d \<in> {0,1,2,3,4,5,6,7,8,9}" by auto
  then show ?thesis by (auto simp: digit_char_def)
qed

lemma toString_radix10_nonempty: "toString_radix 10 n \<noteq> []"
  by (subst toString_radix.simps) simp

lemma toString_radix10_digits:
  "\<forall>c \<in> set (toString_radix 10 n). is_decimal_digit (of_char c)"
proof (induction "10::nat" n rule: toString_radix.induct)
  case (1 n)
  show ?case
  proof (cases "n < 10")
    case True
    then show ?thesis
      by (subst toString_radix.simps) (simp add: digit_char_decimal is_decimal_digit_def)
  next
    case False
    have "n mod 10 < 10" by simp
    then have "is_decimal_digit (of_char (digit_char (n mod 10)))"
      by (simp add: digit_char_decimal is_decimal_digit_def)
    with False 1 show ?thesis
      by (subst toString_radix.simps) simp
  qed
qed

lemma digits_value_snoc: "digits_value (z @ [c]) = digits_value z * 10 + (c - 48)"
  by (simp add: digits_value_def)

lemma digits_value_toString: "digits_value (codepoints (toString_radix 10 n)) = n"
proof (induction "10::nat" n rule: toString_radix.induct)
  case (1 n)
  show ?case
  proof (cases "n < 10")
    case True
    then show ?thesis
      by (subst toString_radix.simps) (simp add: codepoints_def digits_value_def digit_char_decimal)
  next
    case False
    have d: "of_char (digit_char (n mod 10)) = (48 + n mod 10 :: nat)"
      by (simp add: digit_char_decimal)
    from False 1 have ih: "digits_value (codepoints (toString_radix 10 (n div 10))) = n div 10"
      by simp
    have "codepoints (toString_radix 10 n)
          = codepoints (toString_radix 10 (n div 10)) @ [48 + n mod 10]"
      using False d by (subst toString_radix.simps) (simp add: codepoints_def)
    then show ?thesis by (simp add: digits_value_snoc ih)
  qed
qed

lemma toString_radix10_length: "n < 10 ^ k \<Longrightarrow> 0 < k \<Longrightarrow> length (toString_radix 10 n) \<le> k"
proof (induction "10::nat" n arbitrary: k rule: toString_radix.induct)
  case (1 n)
  show ?case
  proof (cases "n < 10")
    case True
    with 1 show ?thesis by (subst toString_radix.simps) simp
  next
    case False
    from 1(3) obtain j where k: "k = Suc j" by (cases k) auto
    have "j \<noteq> 0" using False 1(2) k by (cases j) auto
    moreover have "n div 10 < 10 ^ j" using 1(2) k by (simp add: less_mult_imp_div_less mult.commute)
    ultimately have "length (toString_radix 10 (n div 10)) \<le> j"
      using 1(1) False by simp
    with False k show ?thesis by (subst toString_radix.simps) simp
  qed
qed

lemma unbase64_all: "list_all (\<lambda>i. unbase64 (base64url_char i) = Some i) [0..<64]"
  by (simp add: upt_rec unbase64_def base64url_char_def)

lemma unbase64_base64url_char: "i < 64 \<Longrightarrow> unbase64 (base64url_char i) = Some i"
  using unbase64_all by (simp only: list_all_iff) simp

lemma base64url_char_not_pad: "i < 64 \<Longrightarrow> base64url_char i \<noteq> CHR ''=''"
  using unbase64_base64url_char [of i] by (auto simp: unbase64_def)

lemma map_filter_unbase64:
  "\<forall>x \<in> set xs. x < 64 \<Longrightarrow> List.map_filter unbase64 (map base64url_char xs) = xs"
  by (induction xs) (simp_all add: List.map_filter_simps unbase64_base64url_char)

lemma takeWhile_not_pad:
  "\<forall>x \<in> set xs. x < 64 \<Longrightarrow>
   takeWhile (\<lambda>c. c \<noteq> CHR ''='') (map base64url_char xs) = map base64url_char xs"
  by (induction xs) (simp_all add: base64url_char_not_pad)

lemma sextet_bounds:
  fixes a b c :: nat
  assumes "a < 256" "b < 256" "c < 256"
  shows "a div 4 < 64" "a mod 4 * 16 + b div 16 < 64" "b mod 16 * 4 + c div 64 < 64"
    "c mod 64 < 64" "a mod 4 * 16 < 64" "b mod 16 * 4 < 64"
proof -
  have q: "b div 16 < 16" "c div 64 < 4" using assms by simp_all
  have m: "a mod 4 < 4" "b mod 16 < 16" by simp_all
  show "a div 4 < 64" using assms by simp
  show "a mod 4 * 16 + b div 16 < 64" using q(1) m(1) by simp
  show "b mod 16 * 4 + c div 64 < 64" using q(2) m(2) by simp
  show "c mod 64 < 64" by simp
  show "a mod 4 * 16 < 64" using m(1) by simp
  show "b mod 16 * 4 < 64" using m(2) by simp
qed

lemma sextets_of_bytes_bound:
  "\<forall>b \<in> set bs. b < 256 \<Longrightarrow> \<forall>x \<in> set (sextets_of_bytes bs). x < (64::nat)"
proof (induction bs rule: sextets_of_bytes.induct)
  case (1 a b c r)
  then have "a < 256" "b < 256" "c < 256" by simp_all
  from sextet_bounds [OF this] 1 show ?case by simp
next
  case (2 a b)
  then have "a < 256" "b < 256" "b < 256" by simp_all
  from sextet_bounds [OF this] show ?case by simp
next
  case (3 a)
  then have "a < 256" "a < 256" "a < 256" by simp_all
  from sextet_bounds [OF this] show ?case by simp
next
  case 4
  then show ?case by simp
qed

lemma byte_regroup:
  fixes a b c :: nat
  assumes "b < 256" "c < 256"
  shows "a div 4 * 4 + (a mod 4 * 16 + b div 16) div 16 = a"
    "(a mod 4 * 16 + b div 16) mod 16 * 16 + (b mod 16 * 4 + c div 64) div 4 = b"
    "(b mod 16 * 4 + c div 64) mod 4 * 64 + c mod 64 = c"
    "(a mod 4 * 16 + b div 16) mod 16 * 16 + (b mod 16 * 4) div 4 = b"
    "a div 4 * 4 + (a mod 4 * 16) div 16 = a"
proof -
  have q: "b div 16 < 16" "c div 64 < 4" using assms by simp_all
  have e1: "(a mod 4 * 16 + b div 16) div 16 = a mod 4" using q(1) by simp
  have e2: "(a mod 4 * 16 + b div 16) mod 16 = b div 16" using q(1) by simp
  have e3: "(b mod 16 * 4 + c div 64) div 4 = b mod 16" using q(2) by simp
  have e4: "(b mod 16 * 4 + c div 64) mod 4 = c div 64" using q(2) by simp
  show "a div 4 * 4 + (a mod 4 * 16 + b div 16) div 16 = a" unfolding e1 by simp
  show "(a mod 4 * 16 + b div 16) mod 16 * 16 + (b mod 16 * 4 + c div 64) div 4 = b"
    unfolding e2 e3 by simp
  show "(b mod 16 * 4 + c div 64) mod 4 * 64 + c mod 64 = c" unfolding e4 by simp
  show "(a mod 4 * 16 + b div 16) mod 16 * 16 + (b mod 16 * 4) div 4 = b"
    unfolding e2 by simp
  show "a div 4 * 4 + (a mod 4 * 16) div 16 = a" by simp
qed

lemma bytes_of_sextets_of_bytes:
  "\<forall>b \<in> set bs. b < 256 \<Longrightarrow> bytes_of_sextets (sextets_of_bytes bs) = bs"
proof (induction bs rule: sextets_of_bytes.induct)
  case (1 a b c r)
  then have "b < 256" "c < 256" by simp_all
  from byte_regroup [OF this] 1 show ?case by simp
next
  case (2 a b)
  then have "b < 256" "b < 256" by simp_all
  from byte_regroup [OF this] show ?case by simp
next
  case (3 a)
  have "(0::nat) < 256" by simp
  from byte_regroup [OF this this] show ?case by simp
next
  case 4
  then show ?case by simp
qed

lemma from_base64url_toString_base64url: "from_base64url (toString_base64url b) = b"
proof -
  let ?bs = "map of_char b :: nat list"
  have bytes: "\<forall>x \<in> set ?bs. x < 256" by auto
  note sx = sextets_of_bytes_bound [OF bytes]
  have "from_base64url (toString_base64url b) = map char_of (bytes_of_sextets (sextets_of_bytes ?bs))"
    by (simp add: from_base64url_def toString_base64url_def takeWhile_not_pad [OF sx]
          map_filter_unbase64 [OF sx])
  also have "\<dots> = map char_of ?bs" by (simp add: bytes_of_sextets_of_bytes [OF bytes])
  also have "\<dots> = b" by (simp add: map_idI)
  finally show ?thesis .
qed

lemma utf8_bytes_ascii: "\<forall>c \<in> set s. (of_char c :: nat) < 128 \<Longrightarrow> utf8_bytes s = s"
  by (induction s) (simp_all add: utf8_bytes_def)

lemma utf8_decode_ascii: "\<forall>b \<in> set bs. b < 128 \<Longrightarrow> utf8_decode bs = bs"
  by (induction bs) simp_all

lemma toString_utf8_ascii:
  "\<forall>c \<in> set s. (of_char c :: nat) < 128 \<Longrightarrow> toString_utf8 s = codepoints s"
  by (simp add: toString_utf8_def codepoints_def utf8_decode_ascii)

lemma toString_base64url_nonempty: "b \<noteq> [] \<Longrightarrow> toString_base64url b \<noteq> []"
proof -
  assume "b \<noteq> []"
  then obtain x r where "map of_char b = (x # r :: nat list)" by (cases b) auto
  then have "sextets_of_bytes (map of_char b) \<noteq> []"
    by (cases r rule: sextets_of_bytes.cases) auto
  then show ?thesis by (simp add: toString_base64url_def)
qed

lemma decimal_is_ascii:
  "\<forall>c \<in> set (toString_radix 10 m). (of_char c :: nat) < 128"
  using toString_radix10_digits [of m] by (auto simp: is_decimal_digit_def)

lemma parseInt10_digits:
  assumes ne: "z \<noteq> []" and dig: "\<forall>c \<in> set z. is_decimal_digit c"
      and small: "round_double (digits_value z) < 2 ^ 1024"
  shows "parseInt10 z = Num (int (round_double (digits_value z)))"
proof -
  obtain c r where z: "z = c # r" using ne by (cases z) auto
  have c: "is_decimal_digit c" using dig z by simp
  then have nws: "\<not> is_js_whitespace c" and nsign: "c \<noteq> 0x2D" "c \<noteq> 0x2B"
    by (auto simp: is_js_whitespace_def is_decimal_digit_def)
  have tw: "takeWhile is_decimal_digit z = z" using dig by (simp add: takeWhile_eq_all_conv)
  have dw: "dropWhile is_js_whitespace z = z" using nws z by simp
  have "int (round_double (digits_value z)) < 2 ^ 1024"
    using small by (metis of_nat_less_iff of_nat_numeral of_nat_power)
  then show ?thesis
    unfolding parseInt10_def dw
    using nsign tw ne by (simp add: z Let_def del: digits_value_def)
qed

lemma parseInt10_decimal:
  assumes "round_double c < 2 ^ 1024"
  shows "parseInt10 (codepoints (toString_radix 10 c)) = Num (int (round_double c))"
proof -
  have dig: "\<forall>x \<in> set (codepoints (toString_radix 10 c)). is_decimal_digit x"
    using toString_radix10_digits [of c] by (simp add: codepoints_def)
  have ne: "codepoints (toString_radix 10 c) \<noteq> []"
    using toString_radix10_nonempty [of c] by (simp add: codepoints_def)
  from parseInt10_digits [OF ne dig] assms show ?thesis
    by (simp add: digits_value_toString)
qed

lemma number_toString_exact:
  assumes "0 \<le> n" "n < 2 ^ 53"
  shows "number_toString n = toString_radix 10 (nat n)"
proof -
  have small: "nat n < 2 ^ 53" using assms by (simp add: nat_less_iff)
  have "(2::nat) ^ 53 < 10 ^ 21" by simp
  with small have "nat n < 10 ^ 21" by (rule less_trans)
  then have "length (toString_radix 10 (nat n)) \<le> 21"
    by (rule toString_radix10_length) simp
  moreover have "\<not> 2 ^ 1024 \<le> nat n" using small by simp
  ultimately show ?thesis
    using assms by (simp add: number_toString_def Let_def round_double_exact [OF small]
                      shortest_decimal_exact [OF small])
qed

lemma number_toString_double:
  assumes n: "0 \<le> n" "n < 10 ^ 21" and dbl: "round_double (nat n) = nat n"
  shows "\<exists>c. number_toString n = toString_radix 10 c \<and> round_double c = nat n"
proof -
  let ?v = "nat n"
  let ?c = "shortest_decimal ?v"
  have v: "?v < 10 ^ 21" using n by (simp add: nat_less_iff)
  then have "length (toString_radix 10 ?v) \<le> 21"
    by (rule toString_radix10_length) simp
  then have p: "length (toString_radix 10 ?v) - 1 \<le> 21" by simp
  have rc: "round_double ?c = ?v"
    unfolding shortest_decimal_def by (rule shortest_from_round [OF dbl])
  have "?c \<le> 10 ^ 21"
    unfolding shortest_decimal_def by (rule shortest_from_bound [OF v p])
  moreover have "?c \<noteq> 10 ^ 21"
  proof
    assume "?c = 10 ^ 21"
    with rc round_double_10_21 have "?v = 10 ^ 21" by simp
    with v show False by simp
  qed
  ultimately have "?c < 10 ^ 21" by simp
  then have "length (toString_radix 10 ?c) \<le> 21"
    by (rule toString_radix10_length) simp
  moreover have "\<not> 2 ^ 1024 \<le> ?v" using v by simp
  ultimately have "number_toString n = toString_radix 10 ?c"
    using n(1) by (simp add: number_toString_def Let_def dbl)
  with rc show ?thesis by blast
qed

lemma decode_encode_double:
  assumes n: "0 \<le> n" "n < 10 ^ 21" and dbl: "round_double (nat n) = nat n"
  shows "decodeCursor (Some (encodeCursor n)) = n"
proof -
  from number_toString_double [OF assms] obtain c where
    txt_c: "number_toString n = toString_radix 10 c" and rc: "round_double c = nat n" by blast
  let ?ds = "toString_radix 10 c"
  have enc: "encodeCursor n = toString_base64url ?ds"
    by (simp add: encodeCursor_def txt_c utf8_bytes_ascii [OF decimal_is_ascii])
  have ne: "toString_base64url ?ds \<noteq> []"
    by (rule toString_base64url_nonempty) (rule toString_radix10_nonempty)
  have decoded: "toString_utf8 (from_base64url (toString_base64url ?ds)) = codepoints ?ds"
    by (simp add: from_base64url_toString_base64url toString_utf8_ascii [OF decimal_is_ascii])
  have "nat n < 10 ^ 21" using n by (simp add: nat_less_iff)
  moreover have "(10::nat) ^ 21 < 2 ^ 1024" by simp
  ultimately have "round_double c < 2 ^ 1024" unfolding rc by (rule less_trans)
  from parseInt10_decimal [OF this] have "parseInt10 (codepoints ?ds) = Num n"
    using rc n(1) by simp
  then show ?thesis
    using ne n(1) by (simp add: decodeCursor_def enc decoded Let_def)
qed



lemma pg_int8in_decimal:
  "c < 2 ^ 63 \<Longrightarrow> pg_int8in (toString_radix 10 c) = Inr (int c)"
proof -
  assume c: "c < 2 ^ 63"
  obtain x r where xr: "toString_radix 10 c = x # r"
    using toString_radix10_nonempty [of c] by (cases "toString_radix 10 c") auto
  have dig: "\<forall>d \<in> set (toString_radix 10 c). is_decimal_digit (of_char d)"
    by (rule toString_radix10_digits)
  then have "is_decimal_digit (of_char x)" unfolding xr by simp
  then have x: "x \<noteq> CHR ''-''" by (auto simp: is_decimal_digit_def)
  have all: "list_all (\<lambda>d. is_decimal_digit (of_char d)) (toString_radix 10 c)"
    using dig by (simp add: list_all_iff)
  have lt: "int c < 2 ^ 63" using c by (simp flip: of_nat_less_iff)
  have neg: "(case toString_radix 10 c of [] \<Rightarrow> False | d # _ \<Rightarrow> d = CHR ''-'') = False"
    unfolding xr using x by simp
  show ?thesis
    unfolding pg_int8in_def neg
    using all lt toString_radix10_nonempty [of c]
    by (simp add: digits_value_toString Let_def)
qed


lemma pg_bigint_exact:
  assumes "0 \<le> v" "v < 2 ^ 53"
  shows "pg_bigint (Num v) = Inr v"
proof -
  have "nat v < 2 ^ 53" using assms by (simp add: nat_less_iff)
  also have "(2::nat) ^ 53 < 2 ^ 63" by simp
  finally have "pg_int8in (toString_radix 10 (nat v)) = Inr (int (nat v))"
    by (rule pg_int8in_decimal)
  with assms show ?thesis
    by (simp add: pg_bigint_def number_text_def number_toString_exact)
qed




text \<open>Evaluations above \<open>2^53\<close>.\<close>

lemma shortest_from_unfold:
  "shortest_from v p =
     (if p = 0 then v
      else case decimal_candidate v p of Some c \<Rightarrow> c | None \<Rightarrow> shortest_from v (p - 1))"
  by (cases p) (simp_all split: option.splits)

lemma parseInt10_above_2_53:
  "parseInt10 (codepoints ''9007199254740993'') = Num 9007199254740992"
  by (simp add: parseInt10_def codepoints_def is_js_whitespace_def is_decimal_digit_def
        digits_value_def round_double_def bit_length.simps Let_def)

lemma round_double_2_69: "round_double 590295810358705651712 = 590295810358705651712"
  by (simp add: round_double_def bit_length.simps Let_def)

lemma toString_radix_2_69_length: "length (toString_radix 10 (2 ^ 69)) - 1 = 20"
  by (simp add: toString_radix.simps)

lemma shortest_from_2_69: "shortest_from (2 ^ 69) 20 = 590295810358705700000"
  by (simp add: shortest_from_unfold decimal_candidate_def
        round_double_def bit_length.simps Let_def)

lemma shortest_decimal_2_69: "shortest_decimal 590295810358705651712 = 590295810358705700000"
  using toString_radix_2_69_length shortest_from_2_69 by (simp add: shortest_decimal_def)

lemma number_toString_2_69: "number_toString (2 ^ 69) = ''590295810358705700000''"
  by (simp add: number_toString_def round_double_2_69 shortest_decimal_2_69
        toString_radix.simps digit_char_def)

lemma number_toString_above_2_53: "number_toString 9007199254740993 = ''9007199254740992''"
proof -
  have r: "round_double 9007199254740993 = 9007199254740992"
    by (simp add: round_double_def bit_length.simps Let_def)
  have s: "shortest_decimal 9007199254740992 = 9007199254740992"
    by (simp add: shortest_decimal_def shortest_from_unfold decimal_candidate_def
          round_double_def bit_length.simps toString_radix.simps Let_def)
  show ?thesis
    by (simp add: number_toString_def r s toString_radix.simps digit_char_def)
qed

section \<open>Facts about the handlers\<close>






lemma or_20_cases: "or_20 x = NaN \<Longrightarrow> False"
  by (auto simp: or_20_def split: jsnumber.splits if_splits)





section \<open>Idempotent duplicates\<close>

text \<open>
  C1. Take a call for which a row with the same (assignmentId, studentId, sha256-of-bytes)
  triple exists. The call writes no artifact, inserts no row, appends no event, leaves the
  cache as it is and logs no \<open>cache_invalidate\<close> line. When its payload passes the size
  guard (the precondition of the orchestration, checked before the hash is computed; the
  table admits no row of a larger payload), it returns a row with that triple: its
  \<open>submission_id\<close>, \<open>extraction_status\<close> and \<open>ocr_required\<close>, with status \<open>received\<close>,
  and the world after the call is the world before it with one \<open>idempotent_hit\<close> console
  line added.
\<close>

theorem createSubmission_idempotent_hit:
  assumes ex: "\<exists>r \<in> set (submissions w). assignment_id r = assignmentId opts
                 \<and> student_id r = studentId opts \<and> sha256_col r = Some (sha256 e (buf opts))"
  shows "artifacts (snd (createSubmission e opts w)) = artifacts w
       \<and> submission_events (snd (createSubmission e opts w)) = submission_events w
       \<and> submissions (snd (createSubmission e opts w)) = submissions w
       \<and> cache (snd (createSubmission e opts w)) = cache w
       \<and> (\<forall>n c. cache_invalidate n c \<in> set (console (snd (createSubmission e opts w)))
              \<longrightarrow> cache_invalidate n c \<in> set (console w))
       \<and> (length (buf opts) \<le> 10485760 \<longrightarrow>
            (\<exists>r \<in> set (submissions w).
               assignment_id r = assignmentId opts \<and> student_id r = studentId opts
               \<and> sha256_col r = Some (sha256 e (buf opts))
               \<and> createSubmission e opts w =
                   (Inr \<lparr>submissionId = submission_id r, status = received,
                         extractionStatus_res = extraction_status r,
                         ocrRequired_res = ocr_required r\<rparr>,
                    w\<lparr>console := console w
                         @ [idempotent_hit (correlationId opts) (submission_id r)]\<rparr>)))"
proof -
  from ex have "select_by_triple (submissions w) (assignmentId opts) (studentId opts)
                  (sha256 e (buf opts)) \<noteq> None"
    by (simp add: select_by_triple_None)
  then obtain r where r: "select_by_triple (submissions w) (assignmentId opts) (studentId opts)
                  (sha256 e (buf opts)) = Some r" by blast
  from select_by_triple_Some [OF r] have props: "r \<in> set (submissions w)"
    "assignment_id r = assignmentId opts" "student_id r = studentId opts"
    "sha256_col r = Some (sha256 e (buf opts))" by blast+
  have hit: "createSubmission e opts w =
               (Inr \<lparr>submissionId = submission_id r, status = received,
                     extractionStatus_res = extraction_status r,
                     ocrRequired_res = ocr_required r\<rparr>,
                w\<lparr>console := console w @ [idempotent_hit (correlationId opts) (submission_id r)]\<rparr>)"
    if "length (buf opts) \<le> 10485760"
    using that r by (simp add: createSubmission_def)
  have big: "createSubmission e opts w
             = (Inl (HttpError 413 ''too_large'' ''Max file size is 10 MB''), w)"
    if "\<not> length (buf opts) \<le> 10485760"
    using that by (simp add: createSubmission_def)
  have frame: "artifacts (snd (createSubmission e opts w)) = artifacts w
       \<and> submission_events (snd (createSubmission e opts w)) = submission_events w
       \<and> submissions (snd (createSubmission e opts w)) = submissions w
       \<and> cache (snd (createSubmission e opts w)) = cache w
       \<and> (\<forall>n c. cache_invalidate n c \<in> set (console (snd (createSubmission e opts w)))
              \<longrightarrow> cache_invalidate n c \<in> set (console w))"
  proof (cases "length (buf opts) \<le> 10485760")
    case True
    then show ?thesis by (simp add: hit)
  next
    case False
    then show ?thesis by (simp add: big)
  qed
  have ret: "length (buf opts) \<le> 10485760 \<longrightarrow>
            (\<exists>r \<in> set (submissions w).
               assignment_id r = assignmentId opts \<and> student_id r = studentId opts
               \<and> sha256_col r = Some (sha256 e (buf opts))
               \<and> createSubmission e opts w =
                   (Inr \<lparr>submissionId = submission_id r, status = received,
                         extractionStatus_res = extraction_status r,
                         ocrRequired_res = ocr_required r\<rparr>,
                    w\<lparr>console := console w
                         @ [idempotent_hit (correlationId opts) (submission_id r)]\<rparr>))"
    using hit props by blast
  from frame ret show ?thesis by blast
qed

theorem createSubmission_idempotent_hit_witness:
  "createSubmission env0 opts0 (world0\<lparr>submissions := [row0]\<rparr>) =
     (Inr \<lparr>submissionId = ''sub_18f0a1b2c3d_zz91ab'', status = received,
           extractionStatus_res = parsed, ocrRequired_res = False\<rparr>,
      world0\<lparr>submissions := [row0],
             console := [idempotent_hit (Some ''c-1'') ''sub_18f0a1b2c3d_zz91ab'']\<rparr>)"
  using createSubmission_idempotent_hit [of "world0\<lparr>submissions := [row0]\<rparr>" opts0 env0]
  by (simp add: opts0_def world0_def env0_sel row0_def)

section \<open>Uniqueness conflicts on insert\<close>

text \<open>
  C2, as the code has it. When the insert fails with SQLSTATE 23505, the service re-queries
  by the triple. If a concurrent request committed a row with the triple, the call returns
  that row's \<open>submission_id\<close>, \<open>extraction_status\<close> and \<open>ocr_required\<close> as a success
  (the bytes it stored itself stay in the artifact store). If no row has the triple, the
  conflict was on the primary key \<open>submission_id\<close>, and the 23505 error is rethrown to the
  caller.
\<close>

theorem createSubmission_unique_violation:
  assumes size: "length (buf opts) \<le> 10485760"
      and miss: "select_by_triple (submissions w) (assignmentId opts) (studentId opts)
                   (sha256 e (buf opts)) = None"
      and save: "saveOriginal e (buf opts) (grade opts) (assignmentId opts) (new_submission_id e)
                   (pickExt (mime opts)) (artifacts w) = (Inr saved, arts)"
      and ins: "insert_submission
                  (new_row e opts (sha256 e (buf opts)) (new_submission_id e) saved
                     (decideExtraction (mime opts) (buf opts)))
                  (submissions w @ concurrent e) = Inl (PgError ''23505'' msg)"
  shows "((\<exists>x \<in> set (concurrent e). assignment_id x = assignmentId opts
              \<and> student_id x = studentId opts \<and> sha256_col x = Some (sha256 e (buf opts)))
          \<longrightarrow> (\<exists>hit \<in> set (concurrent e). assignment_id hit = assignmentId opts
              \<and> student_id hit = studentId opts \<and> sha256_col hit = Some (sha256 e (buf opts))
              \<and> createSubmission e opts w =
                  (Inr \<lparr>submissionId = submission_id hit, status = received,
                        extractionStatus_res = extraction_status hit,
                        ocrRequired_res = ocr_required hit\<rparr>,
                   w\<lparr>submissions := submissions w @ concurrent e, artifacts := arts,
                     console := console w @ [idempotent_race_winner (correlationId opts)
                                               (submission_id hit)]\<rparr>)))
       \<and> (\<not> (\<exists>x \<in> set (concurrent e). assignment_id x = assignmentId opts
              \<and> student_id x = studentId opts \<and> sha256_col x = Some (sha256 e (buf opts)))
          \<longrightarrow> (\<exists>x \<in> set (submissions w @ concurrent e). submission_id x = new_submission_id e)
              \<and> createSubmission e opts w =
                  (Inl (PgError ''23505'' msg),
                   w\<lparr>submissions := submissions w @ concurrent e, artifacts := arts\<rparr>))"
proof -
  let ?a = "assignmentId opts" and ?s = "studentId opts" and ?h = "sha256 e (buf opts)"
  let ?P = "\<lambda>x. assignment_id x = ?a \<and> student_id x = ?s \<and> sha256_col x = Some ?h"
  let ?tbl = "submissions w @ concurrent e"
  have nomatch: "\<forall>x \<in> set (submissions w). \<not> ?P x"
    using miss by (simp add: select_by_triple_None)
  have step: "createSubmission e opts w =
      (case select_by_triple ?tbl ?a ?s ?h of
         Some hit \<Rightarrow>
           (Inr \<lparr>submissionId = submission_id hit, status = received,
                 extractionStatus_res = extraction_status hit,
                 ocrRequired_res = ocr_required hit\<rparr>,
            w\<lparr>submissions := ?tbl, artifacts := arts,
              console := console w @ [idempotent_race_winner (correlationId opts)
                                        (submission_id hit)]\<rparr>)
       | None \<Rightarrow> (Inl (PgError ''23505'' msg), w\<lparr>submissions := ?tbl, artifacts := arts\<rparr>))"
    using size miss save ins
    by (simp add: createSubmission_def insert_main_row_def Let_def split: option.splits)
  show ?thesis
  proof (intro conjI impI)
    assume "\<exists>x \<in> set (concurrent e). ?P x"
    then have "select_by_triple ?tbl ?a ?s ?h \<noteq> None"
      by (auto simp: select_by_triple_None)
    then obtain hit where hit: "select_by_triple ?tbl ?a ?s ?h = Some hit" by blast
    from select_by_triple_Some [OF hit] nomatch have "hit \<in> set (concurrent e)" "?P hit"
      by auto
    then show "\<exists>hit \<in> set (concurrent e). assignment_id hit = ?a \<and> student_id hit = ?s
              \<and> sha256_col hit = Some ?h
              \<and> createSubmission e opts w =
                  (Inr \<lparr>submissionId = submission_id hit, status = received,
                        extractionStatus_res = extraction_status hit,
                        ocrRequired_res = ocr_required hit\<rparr>,
                   w\<lparr>submissions := ?tbl, artifacts := arts,
                     console := console w @ [idempotent_race_winner (correlationId opts)
                                               (submission_id hit)]\<rparr>)"
      using step hit by auto
  next
    assume no: "\<not> (\<exists>x \<in> set (concurrent e). ?P x)"
    with nomatch have "select_by_triple ?tbl ?a ?s ?h = None"
      by (auto simp: select_by_triple_None)
    then show "createSubmission e opts w =
                  (Inl (PgError ''23505'' msg), w\<lparr>submissions := ?tbl, artifacts := arts\<rparr>)"
      using step by simp
    from no nomatch have "\<forall>x \<in> set ?tbl. \<not> ?P x" by auto
    then show "\<exists>x \<in> set ?tbl. submission_id x = new_submission_id e"
      using ins by (auto simp: insert_submission_def new_row_def split: if_splits)
  qed
qed

theorem createSubmission_unique_violation_witness:
  "createSubmission env1 opts0 world0 =
     (Inr \<lparr>submissionId = ''sub_18f0a1b2c3d_zz91ab'', status = received,
           extractionStatus_res = parsed, ocrRequired_res = False\<rparr>,
      world0\<lparr>submissions := [row0],
             artifacts := [(''class/a1/sub_192ef524800_k3x9qa/original.txt'', ''hello'')],
             console := [idempotent_race_winner (Some ''c-1'') ''sub_18f0a1b2c3d_zz91ab'']\<rparr>)"
proof -
  let ?e = env1
  have size: "length (buf opts0) \<le> 10485760" by (simp add: opts0_def)
  have miss: "select_by_triple (submissions world0) (assignmentId opts0) (studentId opts0)
                (sha256 ?e (buf opts0)) = None"
    by (simp add: select_by_triple_def world0_def)
  have save: "saveOriginal ?e (buf opts0) (grade opts0) (assignmentId opts0)
                (new_submission_id ?e) (pickExt (mime opts0)) (artifacts world0)
              = (Inr saved0, [(''class/a1/sub_192ef524800_k3x9qa/original.txt'', ''hello'')])"
    by (simp add: fixture_defs pickExt_def Let_def)
  have ins: "insert_submission
               (new_row ?e opts0 (sha256 ?e (buf opts0)) (new_submission_id ?e) saved0
                  (decideExtraction (mime opts0) (buf opts0)))
               (submissions world0 @ concurrent ?e)
             = Inl (PgError ''23505''
                 ''duplicate key value violates unique constraint submissions_unique_triplet'')"
    by (simp add: insert_submission_def new_row_def fixture_defs)
  show ?thesis
    using createSubmission_unique_violation [OF size miss save ins]
    by (simp add: fixture_defs)
qed

text \<open>
  C2 as stated fails: the generated id collides with the id of a row of another
  assignment, the insert fails with 23505, the re-query finds no row with the triple, and
  the caller receives the 23505 error.
\<close>

theorem createSubmission_unique_violation_counterexample:
  "insert_submission
     (new_row env0 opts0 (sha256 env0 (buf opts0)) (new_submission_id env0) saved0
        (decideExtraction (mime opts0) (buf opts0)))
     (submissions (world0\<lparr>submissions := [row1]\<rparr>) @ concurrent env0)
   = Inl (PgError ''23505'' ''duplicate key value violates unique constraint submissions_pkey'')
   \<and> fst (createSubmission env0 opts0 (world0\<lparr>submissions := [row1]\<rparr>))
     = Inl (PgError ''23505'' ''duplicate key value violates unique constraint submissions_pkey'')"
proof -
  have ins: "insert_submission
     (new_row env0 opts0 (sha256 env0 (buf opts0)) (new_submission_id env0) saved0
        (decideExtraction (mime opts0) (buf opts0)))
     (submissions (world0\<lparr>submissions := [row1]\<rparr>) @ concurrent env0)
   = Inl (PgError ''23505'' ''duplicate key value violates unique constraint submissions_pkey'')"
    by (simp add: insert_submission_def new_row_def fixture_defs)
  have save: "saveOriginal env0 (buf opts0) (grade opts0) (assignmentId opts0)
   (new_submission_id env0) (pickExt (mime opts0)) (artifacts (world0\<lparr>submissions := [row1]\<rparr>))
     = (Inr saved0, [(''class/a1/sub_192ef524800_k3x9qa/original.txt'', ''hello'')])"
    using save0 by (simp add: world0_def)
  have miss: "select_by_triple (submissions (world0\<lparr>submissions := [row1]\<rparr>)) (assignmentId opts0)
      (studentId opts0) (sha256 env0 (buf opts0)) = None"
    by (simp add: select_by_triple_def fixture_defs)
  have size: "length (buf opts0) \<le> 10485760" by (simp add: opts0_def)
  have requery: "select_by_triple (submissions (world0\<lparr>submissions := [row1]\<rparr>) @ concurrent env0)
      (assignmentId opts0) (studentId opts0) (sha256 env0 (buf opts0)) = None"
    by (simp add: select_by_triple_def fixture_defs)
  have "fst (createSubmission env0 opts0 (world0\<lparr>submissions := [row1]\<rparr>))
     = Inl (PgError ''23505'' ''duplicate key value violates unique constraint submissions_pkey'')"
    unfolding createSubmission_conflict_step [OF size miss save ins] requery by simp
  with ins show ?thesis by blast
qed

section \<open>The size boundary\<close>

text \<open>
  C3. A payload of exactly 10,485,760 bytes is not rejected as too large, and when its
  triple is new, the provider stores it and reports its size, and the generated id is
  unused, the call succeeds and inserts a row of size 10,485,760. Every payload longer
  than 10,485,760 bytes is rejected with the 413 \<open>too_large\<close> error and the world is
  unchanged: no storage write, no insert.
\<close>

theorem createSubmission_size_boundary:
  "(length (buf opts) = 10485760 \<longrightarrow>
      fst (createSubmission e opts w) \<noteq> Inl (HttpError 413 ''too_large'' ''Max file size is 10 MB''))
   \<and> (length (buf opts) = 10485760
        \<and> select_by_triple (submissions w) (assignmentId opts) (studentId opts)
             (sha256 e (buf opts)) = None
        \<and> (\<exists>saved arts.
               saveOriginal e (buf opts) (grade opts) (assignmentId opts) (new_submission_id e)
                 (pickExt (mime opts)) (artifacts w) = (Inr saved, arts)
               \<and> size_saved saved = int (length (buf opts)))
        \<and> (\<forall>x \<in> set (submissions w @ concurrent e). submission_id x \<noteq> new_submission_id e)
        \<and> (\<forall>x \<in> set (concurrent e). \<not> (assignment_id x = assignmentId opts
               \<and> student_id x = studentId opts \<and> sha256_col x = Some (sha256 e (buf opts))))
      \<longrightarrow> fst (createSubmission e opts w) =
            Inr \<lparr>submissionId = new_submission_id e, status = received,
                 extractionStatus_res = extractionStatus (decideExtraction (mime opts) (buf opts)),
                 ocrRequired_res = ocrRequired (decideExtraction (mime opts) (buf opts))\<rparr>
          \<and> size_col (last (submissions (snd (createSubmission e opts w)))) = 10485760)
   \<and> (length (buf opts) > 10485760 \<longrightarrow>
        createSubmission e opts w =
          (Inl (HttpError 413 ''too_large'' ''Max file size is 10 MB''), w))"
proof (intro conjI impI)
  assume "length (buf opts) = 10485760"
  then have le: "length (buf opts) \<le> 10485760" by simp
  show "fst (createSubmission e opts w) \<noteq> Inl (HttpError 413 ''too_large'' ''Max file size is 10 MB'')"
    using createSubmission_failure [OF le] by blast
next
  assume "length (buf opts) > 10485760"
  then show "createSubmission e opts w =
          (Inl (HttpError 413 ''too_large'' ''Max file size is 10 MB''), w)"
    by (simp add: createSubmission_def)
next
  assume a: "length (buf opts) = 10485760
        \<and> select_by_triple (submissions w) (assignmentId opts) (studentId opts)
             (sha256 e (buf opts)) = None
        \<and> (\<exists>saved arts.
               saveOriginal e (buf opts) (grade opts) (assignmentId opts) (new_submission_id e)
                 (pickExt (mime opts)) (artifacts w) = (Inr saved, arts)
               \<and> size_saved saved = int (length (buf opts)))
        \<and> (\<forall>x \<in> set (submissions w @ concurrent e). submission_id x \<noteq> new_submission_id e)
        \<and> (\<forall>x \<in> set (concurrent e). \<not> (assignment_id x = assignmentId opts
               \<and> student_id x = studentId opts \<and> sha256_col x = Some (sha256 e (buf opts))))"
  from a obtain saved arts where
    save: "saveOriginal e (buf opts) (grade opts) (assignmentId opts) (new_submission_id e)
             (pickExt (mime opts)) (artifacts w) = (Inr saved, arts)"
    and ssz: "size_saved saved = int (length (buf opts))" by blast
  let ?row = "new_row e opts (sha256 e (buf opts)) (new_submission_id e) saved
                     (decideExtraction (mime opts) (buf opts))"
  from a have le: "length (buf opts) \<le> 10485760" by simp
  from a have miss: "select_by_triple (submissions w) (assignmentId opts) (studentId opts)
             (sha256 e (buf opts)) = None" by simp
  have nomatch: "\<forall>x \<in> set (submissions w). \<not> (assignment_id x = assignmentId opts
               \<and> student_id x = studentId opts \<and> sha256_col x = Some (sha256 e (buf opts)))"
    using miss by (simp add: select_by_triple_None)
  have ins: "insert_submission ?row (submissions w @ concurrent e)
             = Inr ((submissions w @ concurrent e) @ [?row])"
  proof (rule insert_submission_ok)
    show "0 < size_col ?row" "size_col ?row \<le> 10485760" using a ssz by (simp_all add: new_row_def)
    show "\<forall>x \<in> set (submissions w @ concurrent e). submission_id x \<noteq> submission_id ?row"
      using a by (simp add: new_row_def)
    show "\<forall>x \<in> set (submissions w @ concurrent e).
            \<not> (assignment_id x = assignment_id ?row \<and> student_id x = student_id ?row
               \<and> sha256_col x = sha256_col ?row)"
      using a nomatch by (auto simp: new_row_def)
  qed
  have sz: "size_col ?row = 10485760" using a ssz by (simp add: new_row_def)
  show "fst (createSubmission e opts w) =
            Inr \<lparr>submissionId = new_submission_id e, status = received,
                 extractionStatus_res = extractionStatus (decideExtraction (mime opts) (buf opts)),
                 ocrRequired_res = ocrRequired (decideExtraction (mime opts) (buf opts))\<rparr>"
    by (simp add: createSubmission_fresh [OF le miss save ins])
  show "size_col (last (submissions (snd (createSubmission e opts w)))) = 10485760"
    by (simp add: createSubmission_fresh [OF le miss save ins] sz)
qed

theorem createSubmission_size_boundary_witness:
  "fst (createSubmission env0 (opts0\<lparr>buf := replicate 10485760 (CHR ''a'')\<rparr>) world0)
     = Inr \<lparr>submissionId = ''sub_192ef524800_k3x9qa'', status = received,
            extractionStatus_res = parsed, ocrRequired_res = False\<rparr>
   \<and> createSubmission env0 (opts0\<lparr>buf := replicate 10485761 (CHR ''a'')\<rparr>) world0
     = (Inl (HttpError 413 ''too_large'' ''Max file size is 10 MB''), world0)"
  using createSubmission_size_boundary
          [of "opts0\<lparr>buf := replicate 10485760 (CHR ''a'')\<rparr>" env0 world0]
        createSubmission_size_boundary
          [of "opts0\<lparr>buf := replicate 10485761 (CHR ''a'')\<rparr>" env0 world0]
  by (simp add: fixture_defs select_by_triple_def decideExtraction_def Let_def)

section \<open>The classifier's policy table\<close>

text \<open>
  C4. The classifier is a function of the mime type and the bytes alone. For every buffer,
  \<open>text/plain\<close> is parsed without OCR and with the (non-null) document stub as text;
  \<open>image/jpeg\<close> and \<open>image/png\<close> are pending OCR with OCR required and no text; and every
  mime type other than the two image types, pdf, docx and \<open>text/plain\<close> is pending OCR
  with OCR required and no text.
\<close>

theorem decideExtraction_policy:
  "decideExtraction ''text/plain'' b =
     \<lparr>ocrRequired = False, extractionStatus = parsed,
      extractedText = Some ''[stub] Extracted text from document''\<rparr>
   \<and> decideExtraction ''image/jpeg'' b =
     \<lparr>ocrRequired = True, extractionStatus = pending_ocr, extractedText = None\<rparr>
   \<and> decideExtraction ''image/png'' b =
     \<lparr>ocrRequired = True, extractionStatus = pending_ocr, extractedText = None\<rparr>
   \<and> (m \<notin> {''image/jpeg'', ''image/png'', ''application/pdf'',
               ''application/vnd.openxmlformats-officedocument.wordprocessingml.document'',
               ''text/plain''}
        \<longrightarrow> decideExtraction m b =
              \<lparr>ocrRequired = True, extractionStatus = pending_ocr, extractedText = None\<rparr>)"
  by (simp add: decideExtraction_def)

theorem decideExtraction_policy_witness:
  "''application/zip'' \<notin> {''image/jpeg'', ''image/png'', ''application/pdf'',
               ''application/vnd.openxmlformats-officedocument.wordprocessingml.document'',
               ''text/plain''}
   \<and> decideExtraction ''application/zip'' ''PK'' =
         \<lparr>ocrRequired = True, extractionStatus = pending_ocr, extractedText = None\<rparr>
   \<and> decideExtraction ''text/plain'' ''PK'' =
         \<lparr>ocrRequired = False, extractionStatus = parsed,
          extractedText = Some ''[stub] Extracted text from document''\<rparr>"
  using decideExtraction_policy [of "''PK''" "''application/zip''"] by simp

section \<open>The PDF heuristic\<close>



section \<open>The event vocabulary\<close>

text \<open>
  C6. The events one call of \<open>createSubmission\<close> appends all have a type among
  \<open>submission.created\<close>, \<open>submission.updated\<close>, \<open>submission.parsed\<close> and
  \<open>submission.ocr_pending\<close>, never the legacy \<open>submission.received\<close>; and every
  \<open>parsed\<close> or \<open>ocr_pending\<close> event among them comes after a \<open>created\<close> event of the
  same submission.
\<close>

theorem createSubmission_event_vocabulary:
  "\<exists>new. submission_events (snd (createSubmission e opts w)) = submission_events w @ new
     \<and> (\<forall>ev \<in> set new.
           event_type ev \<in> {''submission.created'', ''submission.updated'',
                            ''submission.parsed'', ''submission.ocr_pending''}
           \<and> event_type ev \<noteq> ''submission.received'')
     \<and> (\<forall>i < length new.
           event_type (new ! i) = ''submission.parsed''
             \<or> event_type (new ! i) = ''submission.ocr_pending''
           \<longrightarrow> (\<exists>j < i. event_type (new ! j) = ''submission.created''
                       \<and> submission_id_ev (new ! j) = submission_id_ev (new ! i)))"
proof -
  obtain new where ev: "submission_events (snd (createSubmission e opts w)) = submission_events w @ new"
    and sh: "event_shape new"
    using createSubmission_shape by blast
  have voc: "\<forall>ev \<in> set new.
           event_type ev \<in> {''submission.created'', ''submission.updated'',
                            ''submission.parsed'', ''submission.ocr_pending''}
           \<and> event_type ev \<noteq> ''submission.received''"
    using sh unfolding event_shape_def by auto
  have ord: "\<forall>i < length new.
           event_type (new ! i) = ''submission.parsed''
             \<or> event_type (new ! i) = ''submission.ocr_pending''
           \<longrightarrow> (\<exists>j < i. event_type (new ! j) = ''submission.created''
                       \<and> submission_id_ev (new ! j) = submission_id_ev (new ! i))"
    using sh unfolding event_shape_def
    by (auto simp: less_Suc_eq nth_Cons')
  from ev voc ord show ?thesis by blast
qed

theorem createSubmission_event_vocabulary_witness:
  "(\<exists>new. submission_events (snd (createSubmission env0 opts0 world0))
            = submission_events world0 @ new
        \<and> (\<forall>ev \<in> set new.
              event_type ev \<in> {''submission.created'', ''submission.updated'',
                               ''submission.parsed'', ''submission.ocr_pending''}
              \<and> event_type ev \<noteq> ''submission.received'')
        \<and> (\<forall>i < length new.
              event_type (new ! i) = ''submission.parsed''
                \<or> event_type (new ! i) = ''submission.ocr_pending''
              \<longrightarrow> (\<exists>j < i. event_type (new ! j) = ''submission.created''
                          \<and> submission_id_ev (new ! j) = submission_id_ev (new ! i))))
   \<and> map event_type (submission_events (snd (createSubmission env0 opts0 world0)))
       = [''submission.created'', ''submission.parsed'']"
proof -
  have size: "length (buf opts0) \<le> 10485760" by (simp add: opts0_def)
  have miss: "select_by_triple (submissions world0) (assignmentId opts0) (studentId opts0)
                (sha256 env0 (buf opts0)) = None"
    by (simp add: select_by_triple_def world0_def)
  have ins: "insert_submission
               (new_row env0 opts0 (sha256 env0 (buf opts0)) (new_submission_id env0) saved0
                  (decideExtraction (mime opts0) (buf opts0)))
               (submissions world0 @ concurrent env0)
             = Inr ([] @ [new_row env0 opts0 (sha256 env0 (buf opts0)) (new_submission_id env0) saved0
                  (decideExtraction (mime opts0) (buf opts0))])"
    by (simp add: insert_submission_def new_row_def fixture_defs)
  have "map event_type (submission_events (snd (createSubmission env0 opts0 world0)))
       = [''submission.created'', ''submission.parsed'']"
    unfolding createSubmission_fresh [OF size miss save0 ins]
    by (simp add: created_event_def followup_event_def parsed_event_def decideExtraction_def
          opts0_def world0_def)
  then show ?thesis
    using createSubmission_event_vocabulary [of env0 opts0 world0] by simp
qed

section \<open>The pagination cursor\<close>

text \<open>
  C7, as the code has it. A cursor offset is a JavaScript number. For every integer \<open>n\<close>
  with \<open>0 \<le> n < 10^21\<close> that is a double (every integer from 0 below \<open>2^53\<close> is one),
  \<open>decodeCursor(encodeCursor(n)) = n\<close>; \<open>decodeCursor\<close> returns 0 for an absent cursor, for
  the empty cursor, and for every cursor whose decoded text \<open>parseInt\<close> does not read as a
  finite non-negative integer.
\<close>

theorem cursor_round_trip:
  "(0 \<le> n \<and> n < 10 ^ 21 \<and> round_double (nat n) = nat n
      \<longrightarrow> decodeCursor (Some (encodeCursor n)) = n)
   \<and> (0 \<le> n \<and> n < 2 ^ 53 \<longrightarrow> round_double (nat n) = nat n)
   \<and> decodeCursor None = 0
   \<and> decodeCursor (Some []) = 0
   \<and> ((\<forall>v. parseInt10 (toString_utf8 (from_base64url c)) = Num v \<longrightarrow> v < 0)
        \<longrightarrow> decodeCursor (Some c) = 0)"
proof (intro conjI impI)
  assume "0 \<le> n \<and> n < 10 ^ 21 \<and> round_double (nat n) = nat n"
  then show "decodeCursor (Some (encodeCursor n)) = n"
    using decode_encode_double [of n] by blast
next
  assume "0 \<le> n \<and> n < 2 ^ 53"
  then have "nat n < 2 ^ 53" by (simp add: nat_less_iff)
  then show "round_double (nat n) = nat n" by (rule round_double_exact)
next
  show "decodeCursor None = 0" "decodeCursor (Some []) = 0"
    by (simp_all add: decodeCursor_def)
next
  assume "\<forall>v. parseInt10 (toString_utf8 (from_base64url c)) = Num v \<longrightarrow> v < 0"
  then show "decodeCursor (Some c) = 0"
    by (auto simp: decodeCursor_def Let_def split: jsnumber.splits)
qed

theorem cursor_round_trip_witness:
  "encodeCursor 100 = ''MTAw''
   \<and> decodeCursor (Some (encodeCursor 100)) = 100
   \<and> number_toString (2 ^ 69) = ''590295810358705700000''
   \<and> decodeCursor (Some (encodeCursor (2 ^ 69))) = 2 ^ 69
   \<and> parseInt10 (toString_utf8 (from_base64url ''LTU'')) = Num (- 5)
   \<and> decodeCursor (Some ''LTU'') = 0"
proof -
  have enc: "encodeCursor 100 = ''MTAw''"
    by (simp add: encodeCursor_def number_toString_exact toString_radix.simps digit_char_def
          utf8_bytes_def toString_base64url_def base64url_char_def Let_def)
  have p: "parseInt10 (toString_utf8 (from_base64url ''LTU'')) = Num (- 5)"
    by (simp add: from_base64url_def List.map_filter_simps unbase64_def toString_utf8_def
          parseInt10_def is_js_whitespace_def is_decimal_digit_def digits_value_def
          round_double_exact Let_def)
  have d: "(0::int) \<le> 2 ^ 69 \<and> (2::int) ^ 69 < 10 ^ 21 \<and> round_double (nat (2 ^ 69)) = nat (2 ^ 69)"
    using round_double_2_69 by simp
  have big: "decodeCursor (Some (encodeCursor (2 ^ 69))) = 2 ^ 69"
    using cursor_round_trip [of "2 ^ 69" "''LTU''"] d by blast
  have s: "(0::int) \<le> 100 \<and> (100::int) < 10 ^ 21 \<and> round_double (nat 100) = nat 100"
    by (simp add: round_double_exact)
  have small: "decodeCursor (Some (encodeCursor 100)) = 100"
    using cursor_round_trip [of 100 "''LTU''"] s by blast
  have neg: "\<forall>v. parseInt10 (toString_utf8 (from_base64url ''LTU'')) = Num v \<longrightarrow> v < 0"
    unfolding p by simp
  have bad: "decodeCursor (Some ''LTU'') = 0"
    using cursor_round_trip [of 100 "''LTU''"] neg by blast
  from enc small number_toString_2_69 big p bad show ?thesis by blast
qed

text \<open>
  C7 as stated fails at \<open>n = 10^21\<close>, a double and the first integer that \<open>String\<close> prints
  in exponent notation: the cursor encodes the text \<open>1e+21\<close>, and \<open>parseInt\<close> reads the
  digit before the \<open>e\<close>.
\<close>

theorem cursor_round_trip_counterexample:
  "round_double (10 ^ 21) = 10 ^ 21
   \<and> encodeCursor (10 ^ 21) = ''MWUrMjE''
   \<and> decodeCursor (Some (encodeCursor (10 ^ 21))) = 1
   \<and> decodeCursor (Some (encodeCursor (10 ^ 21))) \<noteq> 10 ^ 21"
proof -
  have sd: "shortest_decimal 1000000000000000000000 = 1000000000000000000000"
    by (simp add: shortest_decimal_def shortest_from_unfold decimal_candidate_def
          round_double_def bit_length.simps toString_radix.simps Let_def)
  have enc: "encodeCursor (10 ^ 21) = ''MWUrMjE''"
    by (simp add: encodeCursor_def number_toString_def round_double_10_21 sd
          toString_radix.simps digit_char_def strip_trailing_zeros_def utf8_bytes_def toString_base64url_def base64url_char_def
          Let_def)
  have dec: "decodeCursor (Some ''MWUrMjE'') = 1"
    by (simp add: decodeCursor_def from_base64url_def List.map_filter_simps unbase64_def
          toString_utf8_def parseInt10_def is_js_whitespace_def is_decimal_digit_def
          digits_value_def round_double_exact Let_def)
  show ?thesis unfolding enc dec using round_double_10_21 by simp
qed

section \<open>The page size of GET /submissions\<close>

text \<open>
  C8. The claim asks for a limit in \<open>[1, 200]\<close>: values above 200 become 200, values
  below 1 become 1, and a missing or non-numeric value becomes 20. The handler has the
  upper bound and the default, and no lower bound: \<open>pageSize=-5\<close> reaches the service as
  the limit \<open>-5\<close>, which the database refuses, and \<open>pageSize=0\<close> becomes 20.
\<close>

theorem listSubmissions_pageSize_lower_bound_missing:
  "pageSize_of (Some ''-5'') = Num (- 5)
   \<and> pageSize_of (Some ''0'') = Num 20
   \<and> pageSize_of (Some ''500'') = Num 200
   \<and> pageSize_of (Some ''abc'') = Num 20
   \<and> pageSize_of None = Num 20
   \<and> listSubmissions_handler (Some ''-5'') None world0
       = Inl (PgError ''2201W'' ''LIMIT must not be negative'')"
proof -
  have p: "pageSize_of (Some ''-5'') = Num (- 5)"
    by (simp add: pageSize_of_def codepoints_def parseInt10_def is_js_whitespace_def
          is_decimal_digit_def digits_value_def round_double_exact or_20_def min_200_def Let_def)
  have l: "pg_bigint (Num (- 5)) = Inr (- 5)"
    by (simp add: pg_bigint_def number_text_def number_toString_def round_double_exact
          shortest_decimal_exact
          toString_radix.simps digit_char_def pg_int8in_def is_decimal_digit_def codepoints_def
          digits_value_def Let_def)
  have "listSubmissions_handler (Some ''-5'') None world0
       = Inl (PgError ''2201W'' ''LIMIT must not be negative'')"
    by (simp add: listSubmissions_handler_def p decodeCursor_def listSubmissions_def l
          pg_bigint_exact Let_def)
  moreover have "pageSize_of (Some ''0'') = Num 20" "pageSize_of (Some ''500'') = Num 200"
    "pageSize_of (Some ''abc'') = Num 20" "pageSize_of None = Num 20"
    by (simp_all add: pageSize_of_def codepoints_def parseInt10_def is_js_whitespace_def
          is_decimal_digit_def digits_value_def round_double_exact or_20_def min_200_def Let_def)
  ultimately show ?thesis using p by simp
qed

section \<open>The content source of POST /submissions\<close>



section \<open>The count of a listing\<close>




end
